theory Spec2Isabelle
  imports Complex_Main "HOL-Library.Log_Nat"
begin

section \<open>JavaScript values\<close>

text \<open>
  The handler of \<^verbatim>\<open>PARSE_SYLLABUS_FUNCTION_CODE.ts\<close> works on untyped JSON data. A JavaScript
  number is an IEEE 754 double: \<open>NaN\<close>, one of the two infinities, or a finite value, held
  here as the rational number it stands for. The two zeros are one value, \<open>Fin 0\<close>: the
  handler never divides, and what it does with numbers (sums, products, comparisons, truth
  tests, property keys, \<^verbatim>\<open>isNaN\<close>) gives the same result for either zero, up to the sign of
  a zero. A string is a list of code units below 256.
\<close>

datatype jsnum = NaN | Fin rat | PosInf | NegInf

datatype jsval = JsUndefined | JsNull | JsBoolean bool | JsNumber jsnum | JsString string

text \<open>
  The result of an arithmetic operation is the exact result rounded to the nearest double,
  a tie going to the double with an even significand. \<open>binaryExponent a\<close> is the integer
  \<open>e\<close> with \<open>2^e \<le> a < 2^(e+1)\<close>, for a positive \<open>a\<close>; the doubles next to \<open>a\<close> are the
  multiples of \<open>2^(e-52)\<close>, or of \<open>2^(-1074)\<close> for the subnormal numbers. A result that rounds
  to \<open>2^1024\<close> or more is an infinity.
\<close>

definition roundHalfEven :: "rat \<Rightarrow> int" where
  "roundHalfEven q =
     (let f = \<lfloor>q\<rfloor>; d = q - of_int f
      in if d < 1 / 2 \<or> (d = 1 / 2 \<and> even f) then f else f + 1)"

definition binaryExponent :: "rat \<Rightarrow> int" where
  "binaryExponent a =
     (case quotient_of a of
        (n, d) \<Rightarrow> (let e = bitlen n - bitlen d in if 2 powi e \<le> a then e else e - 1))"

definition roundDouble :: "rat \<Rightarrow> jsnum" where
  "roundDouble q =
     (if q = 0 then Fin 0
      else
        (let a = \<bar>q\<bar>;
             p = max (binaryExponent a - 52) (- 1074);
             r = of_int (roundHalfEven (a / 2 powi p)) * 2 powi p
         in if 2 ^ 1024 \<le> r then (if 0 < q then PosInf else NegInf)
            else Fin (if 0 < q then r else - r)))"

fun jsNeg :: "jsnum \<Rightarrow> jsnum" where
  "jsNeg NaN = NaN"
| "jsNeg (Fin a) = Fin (- a)"
| "jsNeg PosInf = NegInf"
| "jsNeg NegInf = PosInf"

fun jsAdd :: "jsnum \<Rightarrow> jsnum \<Rightarrow> jsnum" where
  "jsAdd NaN y = NaN"
| "jsAdd x NaN = NaN"
| "jsAdd (Fin a) (Fin b) = roundDouble (a + b)"
| "jsAdd PosInf NegInf = NaN"
| "jsAdd NegInf PosInf = NaN"
| "jsAdd PosInf y = PosInf"
| "jsAdd x PosInf = PosInf"
| "jsAdd NegInf y = NegInf"
| "jsAdd x NegInf = NegInf"

definition jsSub :: "jsnum \<Rightarrow> jsnum \<Rightarrow> jsnum" where
  "jsSub x y = jsAdd x (jsNeg y)"

fun jsMul :: "jsnum \<Rightarrow> jsnum \<Rightarrow> jsnum" where
  "jsMul NaN y = NaN"
| "jsMul x NaN = NaN"
| "jsMul (Fin a) (Fin b) = roundDouble (a * b)"
| "jsMul (Fin a) y = (if a = 0 then NaN else if (0 < a) = (y = PosInf) then PosInf else NegInf)"
| "jsMul x (Fin b) = (if b = 0 then NaN else if (0 < b) = (x = PosInf) then PosInf else NegInf)"
| "jsMul x y = (if x = y then PosInf else NegInf)"

fun jsLt :: "jsnum \<Rightarrow> jsnum \<Rightarrow> bool" where
  "jsLt NaN y = False"
| "jsLt x NaN = False"
| "jsLt (Fin a) (Fin b) = (a < b)"
| "jsLt x NegInf = False"
| "jsLt PosInf y = False"
| "jsLt x y = True"

definition jsGt :: "jsnum \<Rightarrow> jsnum \<Rightarrow> bool" where
  "jsGt x y = jsLt y x"

text \<open>Truthiness, as \<^verbatim>\<open>&&\<close>, \<^verbatim>\<open>||\<close> and \<^verbatim>\<open>? :\<close> test it.\<close>

fun truthy :: "jsval \<Rightarrow> bool" where
  "truthy JsUndefined = False"
| "truthy JsNull = False"
| "truthy (JsBoolean b) = b"
| "truthy (JsNumber n) = (n \<noteq> NaN \<and> n \<noteq> Fin 0)"
| "truthy (JsString s) = (s \<noteq> [])"

section \<open>Strings: trim, split, Number\<close>

text \<open>
  White space as \<^verbatim>\<open>String.prototype.trim\<close> and the conversion to a number strip it: TAB, LF,
  VT, FF, CR, SPACE and the no-break space (the white space characters below 256).
\<close>

definition isWhiteSpace :: "char \<Rightarrow> bool" where
  "isWhiteSpace c = (of_char c \<in> {9, 10, 11, 12, 13, 32, 160 :: nat})"

definition trim :: "string \<Rightarrow> string" where
  "trim s = rev (dropWhile isWhiteSpace (rev (dropWhile isWhiteSpace s)))"

text \<open>
  \<^verbatim>\<open>s.split(sep)\<close> for a separator of one character. The result is never empty (the
  empty string splits into one empty field), so the \<open>[]\<close> branch below is never taken.
\<close>

fun split :: "char \<Rightarrow> string \<Rightarrow> string list" where
  "split sep [] = [[]]"
| "split sep (c # cs) =
     (if c = sep then [] # split sep cs
      else (case split sep cs of [] \<Rightarrow> [[c]] | x # xs \<Rightarrow> (c # x) # xs))"

text \<open>\<^verbatim>\<open>s.substring(0, 3)\<close>: the first three code units, or all of a shorter string.\<close>

definition substring03 :: "string \<Rightarrow> string" where
  "substring03 s = take 3 s"

text \<open>
  The value of a digit in bases up to 16, and of a non-empty run of digits of one base.
\<close>

definition digitValue :: "char \<Rightarrow> nat option" where
  "digitValue c =
     (let n = (of_char c :: nat) in
      if 48 \<le> n \<and> n \<le> 57 then Some (n - 48)
      else if 97 \<le> n \<and> n \<le> 102 then Some (n - 87)
      else if 65 \<le> n \<and> n \<le> 70 then Some (n - 55)
      else None)"

fun digitsFrom :: "nat \<Rightarrow> nat \<Rightarrow> string \<Rightarrow> nat option" where
  "digitsFrom base acc [] = Some acc"
| "digitsFrom base acc (c # cs) =
     (case digitValue c of
        None \<Rightarrow> None
      | Some d \<Rightarrow> if d < base then digitsFrom base (acc * base + d) cs else None)"

definition digits :: "nat \<Rightarrow> string \<Rightarrow> nat option" where
  "digits base s = (if s = [] then None else digitsFrom base 0 s)"

definition pow10 :: "int \<Rightarrow> rat" where
  "pow10 k = (if 0 \<le> k then 10 ^ nat k else 1 / 10 ^ nat (- k))"

text \<open>
  The grammar \<^verbatim>\<open>StringNumericLiteral\<close> of ECMAScript, which \<^verbatim>\<open>Number(s)\<close> applies to a
  string: white space is stripped, the empty string is 0, then a binary, octal or
  hexadecimal integer without sign, or a signed decimal literal (\<^verbatim>\<open>Infinity\<close>, or digits
  with an optional fraction and exponent); everything else is \<open>NaN\<close>. The number is the
  double nearest to the value that the literal denotes (ECMAScript requires this of a literal
  of up to 20 significant digits, and V8, the engine of the Edge runtime, does it for all).
\<close>

definition exponentPart :: "string \<Rightarrow> int option" where
  "exponentPart x =
     (case x of
        [] \<Rightarrow> Some 0
      | e # r \<Rightarrow>
          (case r of
             [] \<Rightarrow> None
           | c # r' \<Rightarrow>
               if c = CHR ''+'' then map_option int (digits 10 r')
               else if c = CHR ''-'' then map_option (\<lambda>n. - int n) (digits 10 r')
               else map_option int (digits 10 r)))"

definition mantissa :: "string \<Rightarrow> (nat \<times> nat) option" where
  "mantissa m =
     (let ip = takeWhile (\<lambda>c. c \<noteq> CHR ''.'') m;
          fr = dropWhile (\<lambda>c. c \<noteq> CHR ''.'') m;
          fp = drop 1 fr
      in if fr = [] then map_option (\<lambda>n. (n, 0)) (digits 10 ip)
         else if ip = [] \<and> fp = [] then None
         else map_option (\<lambda>n. (n, length fp)) (digitsFrom 10 0 (ip @ fp)))"

definition strUnsignedDecimalLiteral :: "string \<Rightarrow> jsnum" where
  "strUnsignedDecimalLiteral u =
     (if u = ''Infinity'' then PosInf
      else
        (let notE = (\<lambda>c. c \<noteq> CHR ''e'' \<and> c \<noteq> CHR ''E'') in
         case (mantissa (takeWhile notE u), exponentPart (dropWhile notE u)) of
           (Some (n, scale), Some e) \<Rightarrow> roundDouble (of_nat n * pow10 (e - int scale))
         | _ \<Rightarrow> NaN))"

definition strDecimalLiteral :: "string \<Rightarrow> jsnum" where
  "strDecimalLiteral s =
     (case s of
        [] \<Rightarrow> NaN
      | c # r \<Rightarrow>
          if c = CHR ''+'' then strUnsignedDecimalLiteral r
          else if c = CHR ''-'' then jsNeg (strUnsignedDecimalLiteral r)
          else strUnsignedDecimalLiteral s)"

definition nonDecimalIntegerLiteral :: "string \<Rightarrow> nat option" where
  "nonDecimalIntegerLiteral s =
     (case s of
        z # p # r \<Rightarrow>
          if z \<noteq> CHR ''0'' then None
          else if p = CHR ''x'' \<or> p = CHR ''X'' then digits 16 r
          else if p = CHR ''o'' \<or> p = CHR ''O'' then digits 8 r
          else if p = CHR ''b'' \<or> p = CHR ''B'' then digits 2 r
          else None
      | _ \<Rightarrow> None)"

definition stringToNumber :: "string \<Rightarrow> jsnum" where
  "stringToNumber s =
     (let t = trim s in
      if t = [] then Fin 0
      else (case nonDecimalIntegerLiteral t of
              Some n \<Rightarrow> roundDouble (of_nat n)
            | None \<Rightarrow> strDecimalLiteral t))"

fun toNumber :: "jsval \<Rightarrow> jsnum" where
  "toNumber JsUndefined = NaN"
| "toNumber JsNull = Fin 0"
| "toNumber (JsBoolean b) = Fin (if b then 1 else 0)"
| "toNumber (JsNumber n) = n"
| "toNumber (JsString s) = stringToNumber s"

definition isNaN :: "jsval \<Rightarrow> bool" where
  "isNaN v = (toNumber v = NaN)"

section \<open>Dates\<close>

text \<open>
  A \<^verbatim>\<open>Date\<close> holds a time value, the milliseconds since 1970-01-01T00:00Z, or is invalid
  (\<open>None\<close>). The calendar functions are those of ECMAScript (\<^verbatim>\<open>Day\<close>, \<^verbatim>\<open>DayFromYear\<close>,
  \<^verbatim>\<open>YearFromTime\<close>, \<^verbatim>\<open>MonthFromTime\<close>, \<^verbatim>\<open>DateFromTime\<close>, \<^verbatim>\<open>WeekDay\<close>, \<^verbatim>\<open>MakeDay\<close>,
  \<^verbatim>\<open>TimeClip\<close>); months count from 0, week days from 0 = Sunday.

  A time value is an integer of magnitude at most 8.64e15, which every double holds exactly.
\<close>

type_synonym jsdate = "int option"

definition msPerDay :: int where
  "msPerDay = 86400000"

definition Day :: "int \<Rightarrow> int" where
  "Day t = t div msPerDay"

definition TimeWithinDay :: "int \<Rightarrow> int" where
  "TimeWithinDay t = t mod msPerDay"

definition isLeapYear :: "int \<Rightarrow> bool" where
  "isLeapYear y = (y mod 4 = 0 \<and> (y mod 100 \<noteq> 0 \<or> y mod 400 = 0))"

definition DayFromYear :: "int \<Rightarrow> int" where
  "DayFromYear y =
     365 * (y - 1970) + (y - 1969) div 4 - (y - 1901) div 100 + (y - 1601) div 400"

text \<open>
  The year of a day number: the largest \<open>y\<close> with \<open>DayFromYear y \<le> d\<close>, computed from the
  mean length of a year (146097 days in 400 years) and corrected by at most one year.
\<close>

definition yearFromDay :: "int \<Rightarrow> int" where
  "yearFromDay d =
     (let y = 1970 + (d * 400) div 146097 in
      if d < DayFromYear y then y - 1
      else if DayFromYear (y + 1) \<le> d then y + 1
      else y)"

definition YearFromTime :: "int \<Rightarrow> int" where
  "YearFromTime t = yearFromDay (Day t)"

definition DayWithinYear :: "int \<Rightarrow> int" where
  "DayWithinYear t = Day t - DayFromYear (YearFromTime t)"

text \<open>The number of days of a year before its month \<open>m\<close> (0 = January).\<close>

definition daysBeforeMonth :: "bool \<Rightarrow> int \<Rightarrow> int" where
  "daysBeforeMonth leap m =
     (let l = (if leap then 1 else 0) in
      if m \<le> 0 then 0 else if m = 1 then 31 else if m = 2 then 59 + l
      else if m = 3 then 90 + l else if m = 4 then 120 + l else if m = 5 then 151 + l
      else if m = 6 then 181 + l else if m = 7 then 212 + l else if m = 8 then 243 + l
      else if m = 9 then 273 + l else if m = 10 then 304 + l else if m = 11 then 334 + l
      else 365 + l)"

definition MonthFromTime :: "int \<Rightarrow> int" where
  "MonthFromTime t =
     (let leap = isLeapYear (YearFromTime t); dw = DayWithinYear t in
      if dw < daysBeforeMonth leap 1 then 0 else if dw < daysBeforeMonth leap 2 then 1
      else if dw < daysBeforeMonth leap 3 then 2 else if dw < daysBeforeMonth leap 4 then 3
      else if dw < daysBeforeMonth leap 5 then 4 else if dw < daysBeforeMonth leap 6 then 5
      else if dw < daysBeforeMonth leap 7 then 6 else if dw < daysBeforeMonth leap 8 then 7
      else if dw < daysBeforeMonth leap 9 then 8 else if dw < daysBeforeMonth leap 10 then 9
      else if dw < daysBeforeMonth leap 11 then 10 else 11)"

definition DateFromTime :: "int \<Rightarrow> int" where
  "DateFromTime t =
     DayWithinYear t - daysBeforeMonth (isLeapYear (YearFromTime t)) (MonthFromTime t) + 1"

definition WeekDay :: "int \<Rightarrow> nat" where
  "WeekDay t = nat ((Day t + 4) mod 7)"

definition MakeDay :: "int \<Rightarrow> int \<Rightarrow> int \<Rightarrow> int" where
  "MakeDay year month date =
     (let ym = year + month div 12; mn = month mod 12 in
      DayFromYear ym + daysBeforeMonth (isLeapYear ym) mn + date - 1)"

definition MakeDate :: "int \<Rightarrow> int \<Rightarrow> int" where
  "MakeDate day time = day * msPerDay + time"

definition TimeClip :: "int \<Rightarrow> jsdate" where
  "TimeClip t = (if \<bar>t\<bar> > 8640000000000000 then None else Some t)"

text \<open>
  The host of the handler: the calendar year of its clock (\<^verbatim>\<open>new Date().getFullYear()\<close>),
  its local time zone, and its reading of date strings that are not in the ISO form (see
  below). The zone is given by its offset from UTC in milliseconds, positive to the east,
  taken to be the same at every time: a zone that changes its offset during the year is not
  modelled. A Supabase Edge Function runs with the offset 0.
\<close>

record host =
  currentYear :: int
  localTZA :: int
  parseOther :: "string \<Rightarrow> int option"

definition LocalTime :: "host \<Rightarrow> int \<Rightarrow> int" where
  "LocalTime h t = t + localTZA h"

definition UTC :: "host \<Rightarrow> int \<Rightarrow> int" where
  "UTC h t = t - localTZA h"

text \<open>
  \<^verbatim>\<open>d.getDay()\<close>, \<^verbatim>\<open>d.getDate()\<close> and \<^verbatim>\<open>d.setDate(n)\<close> on a valid date: they read and set
  the fields of local time.
\<close>

definition getDay :: "host \<Rightarrow> int \<Rightarrow> nat" where
  "getDay h t = WeekDay (LocalTime h t)"

definition getDate :: "host \<Rightarrow> int \<Rightarrow> int" where
  "getDate h t = DateFromTime (LocalTime h t)"

definition setDate :: "host \<Rightarrow> int \<Rightarrow> int \<Rightarrow> jsdate" where
  "setDate h t dt =
     (let tl = LocalTime h t in
      TimeClip (UTC h (MakeDate (MakeDay (YearFromTime tl) (MonthFromTime tl) dt)
                         (TimeWithinDay tl))))"

text \<open>
  \<^verbatim>\<open>d.toISOString()\<close> on a valid date, which prints the fields of UTC:
  \<^verbatim>\<open>YYYY-MM-DDTHH:mm:ss.sssZ\<close>, the year with a sign and six digits when it is outside
  0..9999.
\<close>

definition digitChar :: "nat \<Rightarrow> char" where
  "digitChar n = ''0123456789'' ! (n mod 10)"

definition pad2 :: "nat \<Rightarrow> string" where
  "pad2 n = [digitChar (n div 10), digitChar n]"

definition pad3 :: "nat \<Rightarrow> string" where
  "pad3 n = digitChar (n div 100) # pad2 n"

definition pad4 :: "nat \<Rightarrow> string" where
  "pad4 n = digitChar (n div 1000) # pad3 n"

definition pad6 :: "nat \<Rightarrow> string" where
  "pad6 n = digitChar (n div 100000) # digitChar (n div 10000) # pad4 n"

definition yearString :: "int \<Rightarrow> string" where
  "yearString y =
     (if 0 \<le> y \<and> y \<le> 9999 then pad4 (nat y)
      else (if y < 0 then ''-'' else ''+'') @ pad6 (nat \<bar>y\<bar>))"

definition toISOString :: "int \<Rightarrow> string" where
  "toISOString t =
     (let tod = TimeWithinDay t in
      yearString (YearFromTime t) @ ''-'' @ pad2 (nat (MonthFromTime t + 1)) @ ''-''
      @ pad2 (nat (DateFromTime t)) @ ''T'' @ pad2 (nat (tod div 3600000)) @ '':''
      @ pad2 (nat (tod div 60000 mod 60)) @ '':'' @ pad2 (nat (tod div 1000 mod 60))
      @ ''.'' @ pad3 (nat (tod mod 1000)) @ ''Z'')"

text \<open>
  \<^verbatim>\<open>new Date(s)\<close> for a string. The date-only form \<^verbatim>\<open>YYYY-MM-DD\<close> of a calendar date is
  read as UTC midnight of that date by every implementation. What any other string gives
  is left to the implementation by ECMAScript; the host's answer is a parameter
  (\<open>parseOther\<close>, \<open>None\<close> for an invalid date).
\<close>

definition daysInMonth :: "int \<Rightarrow> int \<Rightarrow> int" where
  "daysInMonth y m = daysBeforeMonth (isLeapYear y) m - daysBeforeMonth (isLeapYear y) (m - 1)"

definition parseISODay :: "string \<Rightarrow> int option" where
  "parseISODay s =
     (case s of
        [y1, y2, y3, y4, h1, m1, m2, h2, d1, d2] \<Rightarrow>
          (case (digits 10 [y1, y2, y3, y4], digits 10 [m1, m2], digits 10 [d1, d2]) of
             (Some y, Some m, Some d) \<Rightarrow>
               if h1 = CHR ''-'' \<and> h2 = CHR ''-'' \<and> 1 \<le> m \<and> m \<le> 12 \<and> 1 \<le> d
                  \<and> int d \<le> daysInMonth (int y) (int m)
               then Some (MakeDay (int y) (int m - 1) (int d))
               else None
           | _ \<Rightarrow> None)
      | _ \<Rightarrow> None)"

definition parseISODate :: "string \<Rightarrow> int option" where
  "parseISODate s = map_option (\<lambda>day. MakeDate day 0) (parseISODay s)"

definition dateOfString :: "host \<Rightarrow> string \<Rightarrow> jsdate" where
  "dateOfString h s =
     (case parseISODate s of
        Some t \<Rightarrow> TimeClip t
      | None \<Rightarrow> (case parseOther h s of None \<Rightarrow> None | Some t \<Rightarrow> TimeClip t))"

text \<open>
  \<^verbatim>\<open>new Date(year, month, day)\<close>: midnight of local time at the start of that day; a year
  from 0 to 99 stands for 1900 + year.
\<close>

definition dateOfYMD :: "host \<Rightarrow> int \<Rightarrow> int \<Rightarrow> int \<Rightarrow> jsdate" where
  "dateOfYMD h year month day =
     (let yr = (if 0 \<le> year \<and> year \<le> 99 then 1900 + year else year) in
      TimeClip (UTC h (MakeDate (MakeDay yr month day) 0)))"

section \<open>Class meeting blocks\<close>

text \<open>
  The schedule that the syllabus parser returns, \<open>None\<close> for \<^verbatim>\<open>null\<close> and for a field that
  is absent: \<^verbatim>\<open>{ days: [string], startTime, endTime, startDate?, endDate? }\<close>. A string field
  passes a truth test when it is present and not empty; an array always does. The fields
  have the types of this shape: a time that is not a string or days that are not an array of
  strings make the handler throw a \<^verbatim>\<open>TypeError\<close>, and are not part of the model.
\<close>

record schedule =
  days :: "string list option"
  startTime :: "string option"
  endTime :: "string option"
  startDate :: "string option"
  endDate :: "string option"

definition present :: "string option \<Rightarrow> bool" where
  "present f = (case f of None \<Rightarrow> False | Some s \<Rightarrow> truthy (JsString s))"

text \<open>
  A block of the study plan, as the handler builds it for a class meeting and as the planner
  returns it for an assignment; a field the object does not have is \<open>JsUndefined\<close>. (The
  field \<^verbatim>\<open>startTime\<close> is named \<open>blockStartTime\<close> here, apart from the schedule's.) Every entry
  of the planner's list is taken to be an object.
\<close>

record studyBlock =
  blockDate :: jsval
  blockStartTime :: jsval
  durationMinutes :: jsval
  isClassMeeting :: jsval
  assignmentIndex :: jsval

text \<open>
  \<open>dayMap\<close> is an object literal: a key that is not its own may still be found on
  \<^verbatim>\<open>Object.prototype\<close>, where the value is a function or an object, never a number. Such
  a value is neither null nor undefined, so it passes \<^verbatim>\<open>??\<close> and the filter, and it equals
  no day of the week. The names below are the properties of \<^verbatim>\<open>Object.prototype\<close> in
  ECMAScript (with its Annex B).
\<close>

definition dayMap :: "(string \<times> nat) list" where
  "dayMap =
     [(''Monday'', 1), (''Tuesday'', 2), (''Wednesday'', 3), (''Thursday'', 4),
      (''Friday'', 5), (''Saturday'', 6), (''Sunday'', 0),
      (''Mon'', 1), (''Tue'', 2), (''Wed'', 3), (''Thu'', 4), (''Fri'', 5), (''Sat'', 6),
      (''Sun'', 0),
      (''M'', 1), (''T'', 2), (''W'', 3), (''R'', 4), (''F'', 5), (''S'', 6)]"

definition objectPrototypeKeys :: "string list" where
  "objectPrototypeKeys =
     [''constructor'', ''hasOwnProperty'', ''isPrototypeOf'', ''propertyIsEnumerable'',
      ''toLocaleString'', ''toString'', ''valueOf'', ''__defineGetter__'',
      ''__defineSetter__'', ''__lookupGetter__'', ''__lookupSetter__'', ''__proto__'']"

datatype dayEntry = DayNumber nat | Inherited

definition dayMapGet :: "string \<Rightarrow> dayEntry option" where
  "dayMapGet key =
     (case map_of dayMap key of
        Some n \<Rightarrow> Some (DayNumber n)
      | None \<Rightarrow> if key \<in> set objectPrototypeKeys then Some Inherited else None)"

text \<open>
  \<^verbatim>\<open>dayMap[dayName] ?? dayMap[dayName.substring(0, 3)] ?? null\<close>, with \<open>None\<close> for \<^verbatim>\<open>null\<close>.
\<close>

definition resolveDay :: "string \<Rightarrow> dayEntry option" where
  "resolveDay day =
     (let dayName = trim day in
      case dayMapGet dayName of
        Some v \<Rightarrow> Some v
      | None \<Rightarrow> dayMapGet (substring03 dayName))"

definition scheduleDays :: "string list \<Rightarrow> dayEntry option list" where
  "scheduleDays ds = filter (\<lambda>d. d \<noteq> None) (map resolveDay ds)"

definition arrayIncludes :: "dayEntry option list \<Rightarrow> nat \<Rightarrow> bool" where
  "arrayIncludes sd dayOfWeek = (Some (DayNumber dayOfWeek) \<in> set sd)"

text \<open>
  \<^verbatim>\<open>const [hour, min] = time.split(':').map(Number)\<close>: the first two fields as numbers, a
  field that is not there being undefined. The duration of a class meeting is \<open>None\<close> when
  an hour or minute is \<open>NaN\<close> (the handler logs the invalid time format and builds no block).
\<close>

definition element :: "jsnum list \<Rightarrow> nat \<Rightarrow> jsval" where
  "element xs i = (if i < length xs then JsNumber (xs ! i) else JsUndefined)"

definition MIN_DURATION :: jsnum where
  "MIN_DURATION = Fin 15"

definition MAX_DURATION :: jsnum where
  "MAX_DURATION = jsMul (Fin 4) (Fin 60)"

definition hourMinute :: "string \<Rightarrow> jsval \<times> jsval" where
  "hourMinute time =
     (let fields = map stringToNumber (split CHR '':'' time)
      in (element fields 0, element fields 1))"

definition classDuration :: "string \<Rightarrow> string \<Rightarrow> jsnum option" where
  "classDuration st et =
     (case (hourMinute st, hourMinute et) of
        ((startHour, startMin), (endHour, endMin)) \<Rightarrow>
          if isNaN startHour \<or> isNaN startMin \<or> isNaN endHour \<or> isNaN endMin then None
          else
            (let d0 = jsSub (jsAdd (jsMul (toNumber endHour) (Fin 60)) (toNumber endMin))
                        (jsAdd (jsMul (toNumber startHour) (Fin 60)) (toNumber startMin));
                 d1 = (if jsLt d0 (Fin 0) then jsAdd d0 (jsMul (Fin 24) (Fin 60)) else d0);
                 d2 = (if jsLt d1 MIN_DURATION then MIN_DURATION else d1);
                 d3 = (if jsGt d2 MAX_DURATION then MAX_DURATION else d2)
             in Some d3))"

text \<open>
  The block pushed for the date with time value \<open>t\<close>; its date is
  \<^verbatim>\<open>currentDate.toISOString().split('T')[0]\<close>.
\<close>

definition isoDatePart :: "int \<Rightarrow> jsval" where
  "isoDatePart t = (case split CHR ''T'' (toISOString t) of [] \<Rightarrow> JsUndefined | x # xs \<Rightarrow> JsString x)"

definition meetingBlock :: "string \<Rightarrow> jsnum \<Rightarrow> int \<Rightarrow> studyBlock" where
  "meetingBlock st dur t =
     \<lparr>blockDate = isoDatePart t, blockStartTime = JsString st, durationMinutes = JsNumber dur,
      isClassMeeting = JsBoolean True, assignmentIndex = JsUndefined\<rparr>"

text \<open>
  Setting the day of the month to one more than it is moves a date to the same time of the
  next day. The loop below terminates because of this.
\<close>

lemma setDate_next_day: "setDate h t (getDate h t + 1) = TimeClip (t + msPerDay)"
  by (simp add: setDate_def getDate_def UTC_def LocalTime_def DateFromTime_def MakeDay_def
      MakeDate_def MonthFromTime_def DayWithinYear_def Day_def TimeWithinDay_def Let_def
      msPerDay_def)

text \<open>
  The loop \<^verbatim>\<open>while (currentDate <= endDate)\<close>: a comparison with an invalid date is false.
  Each round appends a block when the day of the week is one of the schedule's, and moves
  \<open>currentDate\<close> to the next day.
\<close>

function occurrences ::
  "host \<Rightarrow> dayEntry option list \<Rightarrow> string \<Rightarrow> jsnum \<Rightarrow> jsdate \<Rightarrow> jsdate \<Rightarrow> studyBlock list
     \<Rightarrow> studyBlock list" where
  "occurrences h sd st dur endD currentDate blocks =
     (case (currentDate, endD) of
        (Some t, Some e) \<Rightarrow>
          if t \<le> e then
            occurrences h sd st dur endD (setDate h t (getDate h t + 1))
              (if arrayIncludes sd (getDay h t) then blocks @ [meetingBlock st dur t]
               else blocks)
          else blocks
      | _ \<Rightarrow> blocks)"
  by pat_completeness auto
termination
  apply (relation "measure (\<lambda>(h, sd, st, dur, endD, cur, blocks).
          case (cur, endD) of (Some t, Some e) \<Rightarrow> nat (e - t + 1) | _ \<Rightarrow> 0)")
   apply simp
  apply (auto simp: setDate_next_day TimeClip_def msPerDay_def)
  done

declare occurrences.simps [simp del]

text \<open>
  The block of the handler that fills \<open>classMeetingBlocks\<close>. The start and end dates default
  to January 15 and May 15 of the current year.
\<close>

definition scheduleStart :: "host \<Rightarrow> schedule \<Rightarrow> jsdate" where
  "scheduleStart h s =
     (case startDate s of
        Some d \<Rightarrow> if truthy (JsString d) then dateOfString h d else dateOfYMD h (currentYear h) 0 15
      | None \<Rightarrow> dateOfYMD h (currentYear h) 0 15)"

definition scheduleEnd :: "host \<Rightarrow> schedule \<Rightarrow> jsdate" where
  "scheduleEnd h s =
     (case endDate s of
        Some d \<Rightarrow> if truthy (JsString d) then dateOfString h d else dateOfYMD h (currentYear h) 4 15
      | None \<Rightarrow> dateOfYMD h (currentYear h) 4 15)"

definition classMeetingBlocks :: "host \<Rightarrow> schedule option \<Rightarrow> studyBlock list" where
  "classMeetingBlocks h sched =
     (case sched of
        None \<Rightarrow> []
      | Some s \<Rightarrow>
          (case (days s, startTime s, endTime s) of
             (Some ds, Some st, Some et) \<Rightarrow>
               if truthy (JsString st) \<and> truthy (JsString et) then
                 (case classDuration st et of
                    None \<Rightarrow> []
                  | Some dur \<Rightarrow>
                      if length (scheduleDays ds) = 0 then []
                      else occurrences h (scheduleDays ds) st dur (scheduleEnd h s)
                             (scheduleStart h s) [])
               else []
           | _ \<Rightarrow> []))"

section \<open>Combining class meetings and assignment study blocks\<close>

text \<open>
  A row of \<^verbatim>\<open>syllabus_assignments\<close> as the insert returned it (only its \<^verbatim>\<open>id\<close> is read), and a
  row of \<^verbatim>\<open>study_blocks\<close> as the handler builds it.
\<close>

record assignmentRow =
  id' :: jsval

record studyBlockRow =
  user_id :: jsval
  class_id :: jsval
  assignment_id :: jsval
  block_date :: jsval
  start_time :: jsval
  duration_minutes :: jsval

text \<open>
  \<^verbatim>\<open>insertedAssignments[block.assignmentIndex]\<close>: the value is turned into a property key, and
  the key names an element when it is the decimal form of an index below the length (a
  number that is such an integer, or a string of its digits without a leading zero). Any
  other key finds nothing, or a property of the array whose \<^verbatim>\<open>id\<close> is undefined.
\<close>

definition canonicalDigits :: "string \<Rightarrow> bool" where
  "canonicalDigits s = (case s of [] \<Rightarrow> False | c # r \<Rightarrow> c \<noteq> CHR ''0'' \<or> r = [])"

definition arrayIndex :: "nat \<Rightarrow> jsval \<Rightarrow> nat option" where
  "arrayIndex len v =
     (case v of
        JsNumber n \<Rightarrow>
          (case n of
             Fin r \<Rightarrow>
               if of_int \<lfloor>r\<rfloor> = r \<and> 0 \<le> r \<and> r < of_nat len then Some (nat \<lfloor>r\<rfloor>) else None
           | _ \<Rightarrow> None)
      | JsString s \<Rightarrow>
          (case digits 10 s of
             Some i \<Rightarrow> if canonicalDigits s \<and> i < len then Some i else None
           | None \<Rightarrow> None)
      | _ \<Rightarrow> None)"

text \<open>\<^verbatim>\<open>insertedAssignments[block.assignmentIndex]?.id || null\<close>\<close>

definition assignmentLink :: "assignmentRow list \<Rightarrow> jsval \<Rightarrow> jsval" where
  "assignmentLink insertedAssignments idx =
     (case arrayIndex (length insertedAssignments) idx of
        None \<Rightarrow> JsNull
      | Some i \<Rightarrow> (let v = id' (insertedAssignments ! i) in if truthy v then v else JsNull))"

definition classMeetingRow :: "jsval \<Rightarrow> jsval \<Rightarrow> studyBlock \<Rightarrow> studyBlockRow" where
  "classMeetingRow userId classId block =
     \<lparr>user_id = userId, class_id = classId, assignment_id = JsNull,
      block_date = blockDate block, start_time = blockStartTime block,
      duration_minutes = durationMinutes block\<rparr>"

definition assignmentRowOf ::
  "jsval \<Rightarrow> jsval \<Rightarrow> assignmentRow list \<Rightarrow> studyBlock \<Rightarrow> studyBlockRow" where
  "assignmentRowOf userId classId insertedAssignments block =
     \<lparr>user_id = userId, class_id = classId,
      assignment_id = assignmentLink insertedAssignments (assignmentIndex block),
      block_date = blockDate block, start_time = blockStartTime block,
      duration_minutes = durationMinutes block\<rparr>"

text \<open>
  \<open>allStudyBlocks\<close>: the class meeting blocks, then the assignment study blocks. The second
  group is added only when both the planner's list and \<open>insertedAssignments\<close> are not empty.
\<close>

definition allStudyBlocks ::
  "jsval \<Rightarrow> jsval \<Rightarrow> studyBlock list \<Rightarrow> studyBlock list \<Rightarrow> assignmentRow list
     \<Rightarrow> studyBlockRow list" where
  "allStudyBlocks userId classId meetings assignmentStudyBlocks insertedAssignments =
     (if length meetings > 0 then map (classMeetingRow userId classId) meetings else [])
     @ (if length assignmentStudyBlocks > 0 \<and> length insertedAssignments > 0
        then map (assignmentRowOf userId classId insertedAssignments) assignmentStudyBlocks
        else [])"

section \<open>The specification's own notions\<close>

text \<open>
  The duration rule in the specification's words, over exact numbers: the difference of the
  end and the start in minutes, plus 1440 if it is negative, then at least 15 and at most 240.
\<close>

definition specDuration :: "rat \<Rightarrow> rat \<Rightarrow> rat \<Rightarrow> rat \<Rightarrow> rat" where
  "specDuration startHour startMin endHour endMin =
     (let d = (endHour * 60 + endMin) - (startHour * 60 + startMin);
          r = (if d < 0 then d + 1440 else d)
      in if r < 15 then 15 else if r > 240 then 240 else r)"

text \<open>
  The calendar days from \<open>d1\<close> to \<open>d2\<close>, in ascending order, whose day of the week is one
  of the schedule's. A calendar day is counted from 1970-01-01, day 0; it is the day
  \<open>MakeDate d 0\<close> in UTC.
\<close>

definition matchingDays :: "dayEntry option list \<Rightarrow> int \<Rightarrow> int \<Rightarrow> int list" where
  "matchingDays sd d1 d2 = filter (\<lambda>d. arrayIncludes sd (WeekDay (MakeDate d 0))) [d1..d2]"

text \<open>
  The calendar day at an end of a schedule's range: the day that a date in the form
  \<^verbatim>\<open>YYYY-MM-DD\<close> names, and for a date that is absent or empty the 15th of the month
  \<open>month\<close> of the clock's year (January for the start, May for the end).
\<close>

definition boundaryDay :: "host \<Rightarrow> string option \<Rightarrow> int \<Rightarrow> int option" where
  "boundaryDay h field month =
     (case field of
        None \<Rightarrow> Some (MakeDay (currentYear h) month 15)
      | Some s \<Rightarrow> if s = [] then Some (MakeDay (currentYear h) month 15) else parseISODay s)"

text \<open>
  A date field that can be parsed, in the specification's sense: a value that
  \<^verbatim>\<open>new Date\<close> turns into a valid date (a string is parsed, any other value is converted to
  a number of milliseconds).
\<close>

definition dateOfValue :: "host \<Rightarrow> jsval \<Rightarrow> jsdate" where
  "dateOfValue h v =
     (case v of
        JsString s \<Rightarrow> dateOfString h s
      | _ \<Rightarrow> (case toNumber v of
                Fin r \<Rightarrow> TimeClip (if 0 \<le> r then \<lfloor>r\<rfloor> else \<lceil>r\<rceil>)
              | _ \<Rightarrow> None))"

definition dateParses :: "host \<Rightarrow> jsval \<Rightarrow> bool" where
  "dateParses h v = (dateOfValue h v \<noteq> None)"

text \<open>
  A time that parses as two integers that are not negative, the hour and the minute.
\<close>

definition nonNegativeIntegers :: "string \<Rightarrow> bool" where
  "nonNegativeIntegers time =
     (case hourMinute time of
        (JsNumber (Fin h), JsNumber (Fin m)) \<Rightarrow>
          of_int \<lfloor>h\<rfloor> = h \<and> 0 \<le> h \<and> of_int \<lfloor>m\<rfloor> = m \<and> 0 \<le> m
      | _ \<Rightarrow> False)"

section \<open>Example inputs\<close>

text \<open>
  Hosts that read no date string but the ISO form: one with a given clock year and zone, and
  the host in UTC in 2025. Then a user, a class, an inserted assignment and a planned session
  with a given date, duration and assignment index.
\<close>

definition hostAt :: "int \<Rightarrow> int \<Rightarrow> host" where
  "hostAt year offset = \<lparr>currentYear = year, localTZA = offset, parseOther = (\<lambda>s. None)\<rparr>"

definition isoOnlyHost :: host where
  "isoOnlyHost = \<lparr>currentYear = 2025, localTZA = 0, parseOther = (\<lambda>s. None)\<rparr>"

definition userId1 :: jsval where
  "userId1 = JsString ''user-1''"

definition classId1 :: jsval where
  "classId1 = JsString ''class-1''"

definition assignment1 :: assignmentRow where
  "assignment1 = \<lparr>id' = JsString ''assignment-1''\<rparr>"

definition plannedSession :: "string \<Rightarrow> rat \<Rightarrow> rat \<Rightarrow> studyBlock" where
  "plannedSession date minutes idx =
     \<lparr>blockDate = JsString date, blockStartTime = JsString ''18:00'',
      durationMinutes = JsNumber (Fin minutes), isClassMeeting = JsUndefined,
      assignmentIndex = JsNumber (Fin idx)\<rparr>"

text \<open>The double nearest to \<open>10^308\<close>, which is what \<^verbatim>\<open>Number("1e308")\<close> gives.\<close>

definition double1e308 :: rat where
  "double1e308 = 5010420900022432 * 2 ^ 971"

text \<open>
  The schedule of the specification's scenario, and a class that meets on one day, Monday
  2025-01-13, with given day names and times.
\<close>

definition scenario :: schedule where
  "scenario = \<lparr>days = Some [''Monday'', ''Wednesday''], startTime = Some ''10:00'',
     endTime = Some ''11:00'', startDate = Some ''2025-01-13'', endDate = Some ''2025-01-24''\<rparr>"

definition mondayClass :: "string list \<Rightarrow> string \<Rightarrow> string \<Rightarrow> schedule" where
  "mondayClass ds st et = \<lparr>days = Some ds, startTime = Some st, endTime = Some et,
     startDate = Some ''2025-01-13'', endDate = Some ''2025-01-13''\<rparr>"

text \<open>
  A class on Wednesdays and Thursdays from 10:00 to 11:00 with given dates (\<open>None\<close> for a
  date the syllabus does not give).
\<close>

definition midweekClass :: "string option \<Rightarrow> string option \<Rightarrow> schedule" where
  "midweekClass sd ed = \<lparr>days = Some [''Wednesday'', ''Thursday''], startTime = Some ''10:00'',
     endTime = Some ''11:00'', startDate = sd, endDate = ed\<rparr>"

section \<open>Facts about the model\<close>

subsection \<open>Rounding to a double\<close>

text \<open>\<open>binaryExponent a\<close> is the exponent of the power of two at or below a positive \<open>a\<close>.\<close>

lemma bitlen_powi:
  assumes "0 < n"
  shows "(2::rat) powi (bitlen n - 1) \<le> of_int n" "(of_int n :: rat) < 2 powi bitlen n"
proof -
  have b: "1 \<le> bitlen n"
    using assms bitlen_eq_zero_iff [of n] bitlen_nonneg [of n] by linarith
  have "(2::int) ^ nat (bitlen n - 1) \<le> n" "n < 2 ^ nat (bitlen n)"
    using bitlen_bounds [OF assms] by simp_all
  then have "(of_int ((2::int) ^ nat (bitlen n - 1)) :: rat) \<le> of_int n"
    "(of_int n :: rat) < of_int (2 ^ nat (bitlen n))"
    by (simp_all only: of_int_le_iff of_int_less_iff)
  then show "(2::rat) powi (bitlen n - 1) \<le> of_int n" "(of_int n :: rat) < 2 powi bitlen n"
    using b by (simp_all add: power_int_def)
qed

lemma powi_unique:
  assumes "(2::rat) powi e \<le> a" and "a < 2 powi (e' + 1)"
  shows "e \<le> e'"
proof (rule ccontr)
  assume "\<not> e \<le> e'"
  then have "e' + 1 \<le> e" by simp
  then have "(2::rat) powi (e' + 1) \<le> 2 powi e"
    by (intro power_int_increasing) simp_all
  then show False using assms by simp
qed

lemma binaryExponent_bounds:
  assumes "0 < a"
  shows "2 powi binaryExponent a \<le> a \<and> a < 2 powi (binaryExponent a + 1)"
proof -
  obtain n d where q: "quotient_of a = (n, d)" by (cases "quotient_of a")
  have d: "0 < d" using q by (rule quotient_of_denom_pos)
  have a: "a = of_int n / of_int d" using q by (rule quotient_of_div)
  have n: "0 < n" using assms d by (simp add: a zero_less_divide_iff)
  define e where "e = bitlen n - bitlen d"
  have dpos: "(0::rat) < of_int d" using d by simp
  have "(2::rat) powi (e - 1) * of_int d < 2 powi (e - 1) * 2 powi bitlen d"
    using bitlen_powi(2) [OF d] by simp
  also have "\<dots> = 2 powi (bitlen n - 1)"
    by (simp add: e_def flip: power_int_add)
  also have "\<dots> \<le> of_int n" using bitlen_powi(1) [OF n] .
  finally have lo: "2 powi (e - 1) < a"
    using dpos by (simp add: a pos_less_divide_eq)
  have "(of_int n :: rat) < 2 powi bitlen n" using bitlen_powi(2) [OF n] .
  also have "\<dots> = 2 powi (e + 1) * 2 powi (bitlen d - 1)"
    by (simp add: e_def flip: power_int_add)
  also have "\<dots> \<le> 2 powi (e + 1) * of_int d"
    using bitlen_powi(1) [OF d] by simp
  finally have hi: "a < 2 powi (e + 1)"
    using dpos by (simp add: a pos_divide_less_eq)
  show ?thesis
  proof (cases "2 powi e \<le> a")
    case True
    then have "binaryExponent a = e" by (simp add: binaryExponent_def q e_def)
    then show ?thesis using True hi by simp
  next
    case False
    then have "binaryExponent a = e - 1" by (simp add: binaryExponent_def q e_def)
    then show ?thesis using False lo by simp
  qed
qed

lemma binaryExponent_unique:
  assumes "2 powi e \<le> a" and "a < 2 powi (e + 1)"
  shows "binaryExponent a = e"
proof -
  have "(0::rat) < 2 powi e" by simp
  then have "0 < a" using assms(1) by linarith
  then have b: "2 powi binaryExponent a \<le> a" "a < 2 powi (binaryExponent a + 1)"
    using binaryExponent_bounds by simp_all
  have "binaryExponent a \<le> e" using b(1) assms(2) by (rule powi_unique)
  moreover have "e \<le> binaryExponent a" using assms(1) b(2) by (rule powi_unique)
  ultimately show ?thesis by simp
qed

text \<open>Rounding a positive number whose binary exponent is known.\<close>

lemma roundDouble_positive:
  assumes "2 powi e \<le> a" and "a < 2 powi (e + 1)"
  shows "roundDouble a =
     (let p = max (e - 52) (- 1074); r = of_int (roundHalfEven (a / 2 powi p)) * 2 powi p
      in if 2 ^ 1024 \<le> r then PosInf else Fin r)"
proof -
  have "(0::rat) < 2 powi e" by simp
  then have "0 < a" using assms(1) by linarith
  then show ?thesis
    by (simp add: roundDouble_def binaryExponent_unique [OF assms] Let_def)
qed

lemma floor_numeral_quotient:
  "\<lfloor>numeral a / numeral b :: rat\<rfloor> = numeral a div numeral b"
  using floor_divide_of_int_eq [of "numeral a" "numeral b", where ?'a = rat] by simp

lemmas rounding_defs = roundHalfEven_def power_int_def power_divide Let_def
  floor_numeral_quotient

text \<open>
  An integer of magnitude below \<open>2^53\<close>, also when it is multiplied by a power of two up to
  \<open>2^970\<close>, is a double: rounding leaves it as it is.
\<close>

lemma roundHalfEven_int: "roundHalfEven (of_int n) = n"
  by (simp add: roundHalfEven_def)

lemma binaryExponent_int:
  assumes "0 < n"
  shows "binaryExponent (of_int n) = bitlen n - 1"
  using bitlen_powi [OF assms] by (intro binaryExponent_unique) simp_all

lemma roundDouble_scaled:
  assumes "\<bar>m\<bar> < 2 ^ 53" and "k \<le> 970"
  shows "roundDouble (of_int (m * 2 ^ k)) = Fin (of_int (m * 2 ^ k))"
proof (cases "m = 0")
  case True
  then show ?thesis by (simp add: roundDouble_def)
next
  case False
  define b where "b = \<bar>m\<bar>"
  define a where "a = b * 2 ^ k"
  have b: "0 < b" "b < 2 ^ 53" using False assms by (simp_all add: b_def)
  have a: "0 < a" using b by (simp add: a_def)
  have "bitlen b \<le> 53"
    using b by (simp add: bitlen_le_iff_power)
  moreover have "bitlen a = bitlen b + int k"
    unfolding a_def using b(1) by (rule bitlen_pow2)
  ultimately have e: "bitlen a - 1 - 52 \<le> int k" by simp
  define p where "p = max (bitlen a - 1 - 52) (- 1074)"
  have p: "p \<le> int k" using e by (simp add: p_def)
  have sc: "(of_int a :: rat) / 2 powi p = of_int (b * 2 ^ nat (int k - p))"
  proof -
    have "(2::rat) powi int k = 2 powi p * 2 powi (int k - p)"
      by (simp flip: power_int_add)
    then have "(of_int a :: rat) = of_int b * 2 powi (int k - p) * 2 powi p"
      by (simp add: a_def)
    then have "(of_int a :: rat) / 2 powi p = of_int b * 2 powi (int k - p)"
      by simp
    then show ?thesis using p by (simp add: power_int_def)
  qed
  have unscale: "(of_int (b * 2 ^ nat (int k - p)) :: rat) * 2 powi p = of_int a"
    unfolding sc [symmetric] by simp
  have small: "\<not> (2::rat) ^ 1024 \<le> of_int a"
  proof -
    have "a < 2 ^ 53 * 2 ^ k" using b(2) by (simp add: a_def)
    also have "\<dots> = 2 ^ (53 + k)" by (simp add: power_add)
    also have "\<dots> \<le> 2 ^ 1024" using assms(2) by (intro power_increasing) simp_all
    finally have "(of_int a :: rat) < of_int (2 ^ 1024)" by (simp only: of_int_less_iff)
    then show ?thesis by simp
  qed
  have abs: "\<bar>of_int (m * 2 ^ k) :: rat\<bar> = of_int a"
    by (simp add: a_def b_def abs_mult)
  have nz: "(of_int (m * 2 ^ k) :: rat) \<noteq> 0" using False by simp
  have sgn: "(0 < (of_int (m * 2 ^ k) :: rat)) = (0 < m)"
    by (simp add: zero_less_mult_iff)
  have val: "(if 0 < m then of_int a else - of_int a) = (of_int (m * 2 ^ k) :: rat)"
    using False by (simp add: a_def b_def)
  show ?thesis
    unfolding roundDouble_def abs Let_def binaryExponent_int [OF a] p_def [symmetric] sc
      roundHalfEven_int unscale sgn
    using nz small val by simp
qed

lemma roundDouble_Ints:
  assumes "q \<in> \<int>" and "- (2 ^ 53) < q" and "q < 2 ^ 53"
  shows "roundDouble q = Fin q"
proof -
  obtain n where n: "q = of_int n" using assms(1) by (auto elim: Ints_cases)
  have "(of_int (- (2 ^ 53)) :: rat) < of_int n" "(of_int n :: rat) < of_int (2 ^ 53)"
    using assms(2,3) by (simp_all add: n)
  then have "- (2 ^ 53) < n" "n < 2 ^ 53" by (simp_all only: of_int_less_iff)
  then have "\<bar>n\<bar> < 2 ^ 53" by simp
  then show ?thesis
    using roundDouble_scaled [of n 0] by (simp add: n)
qed

text \<open>
  Rounding does not cross a power of two: a number of magnitude at most \<open>2^k\<close>, with
  \<open>k \<le> 1023\<close>, rounds to a finite double of magnitude at most \<open>2^k\<close>.
\<close>

lemma roundHalfEven_le:
  assumes "q \<le> of_int m"
  shows "roundHalfEven q \<le> m"
proof -
  have f: "\<lfloor>q\<rfloor> \<le> m" using assms by (simp add: floor_le_iff)
  show ?thesis
  proof (cases "\<lfloor>q\<rfloor> = m")
    case True
    then have "q - of_int \<lfloor>q\<rfloor> \<le> 0" using assms by simp
    then show ?thesis using True by (simp add: roundHalfEven_def Let_def)
  next
    case False
    then have "\<lfloor>q\<rfloor> + 1 \<le> m" using f by simp
    then show ?thesis using f by (simp add: roundHalfEven_def Let_def)
  qed
qed

lemma roundHalfEven_nonneg:
  assumes "0 \<le> q"
  shows "0 \<le> roundHalfEven q"
proof -
  have "0 \<le> \<lfloor>q\<rfloor>" using assms by simp
  then show ?thesis by (simp add: roundHalfEven_def Let_def)
qed

lemma roundDouble_minus:
  "roundDouble (- q) = jsNeg (roundDouble q)"
  by (cases "q = 0"; cases "0 < q") (auto simp: roundDouble_def Let_def)

lemma roundDouble_le:
  assumes "0 < q" and "q \<le> 2 ^ k" and "k \<le> 1023"
  shows "\<exists>r. roundDouble q = Fin r \<and> 0 \<le> r \<and> r \<le> 2 ^ k"
proof -
  define e where "e = binaryExponent q"
  define p where "p = max (e - 52) (- 1074)"
  define n where "n = roundHalfEven (q / 2 powi p)"
  have lo: "(2::rat) powi e \<le> q"
    using binaryExponent_bounds [OF assms(1)] by (simp add: e_def)
  have hi: "q < 2 powi (int k + 1)"
  proof -
    have "(0::rat) < 2 ^ k" by simp
    then have "q < 2 ^ k * 2" using assms(2) by linarith
    then show ?thesis by (simp add: power_int_add)
  qed
  have "e \<le> int k" using lo hi by (rule powi_unique)
  then have p: "p \<le> int k" by (simp add: p_def)
  have split: "(2::rat) ^ k = of_int (2 ^ nat (int k - p)) * 2 powi p"
  proof -
    have "(2::rat) powi int k = 2 powi (int k - p) * 2 powi p"
      by (simp flip: power_int_add)
    then show ?thesis using p by (simp add: power_int_def)
  qed
  have "q / 2 powi p \<le> of_int (2 ^ nat (int k - p))"
    using assms(2) unfolding split by (simp add: pos_divide_le_eq)
  then have n_le: "n \<le> 2 ^ nat (int k - p)"
    unfolding n_def by (rule roundHalfEven_le)
  have n_ge: "0 \<le> n"
    unfolding n_def using assms(1) by (intro roundHalfEven_nonneg) simp
  define r where "r = (of_int n :: rat) * 2 powi p"
  have "r \<le> of_int (2 ^ nat (int k - p)) * 2 powi p"
    unfolding r_def using n_le by (intro mult_right_mono) (simp_all only: of_int_le_iff, simp)
  then have r_le: "r \<le> 2 ^ k" unfolding split .
  have r_ge: "0 \<le> r" unfolding r_def using n_ge by simp
  have "(2::rat) ^ k < 2 ^ 1024" using assms(3) by (intro power_strict_increasing) simp_all
  then have "\<not> 2 ^ 1024 \<le> r" using r_le by linarith
  then have "roundDouble q = Fin r"
    using assms(1)
    by (simp add: roundDouble_def Let_def e_def [symmetric] p_def [symmetric] n_def [symmetric]
        r_def [symmetric])
  then show ?thesis using r_le r_ge by blast
qed

lemma roundDouble_bounded:
  assumes "\<bar>q\<bar> \<le> 2 ^ k" and "k \<le> 1023"
  shows "\<exists>r. roundDouble q = Fin r \<and> \<bar>r\<bar> \<le> 2 ^ k"
proof -
  consider "q = 0" | "0 < q" | "0 < - q" by linarith
  then show ?thesis
  proof cases
    case 1
    then show ?thesis by (simp add: roundDouble_def)
  next
    case 2
    then obtain r where "roundDouble q = Fin r" "0 \<le> r" "r \<le> 2 ^ k"
      using roundDouble_le [of q k] assms by auto
    then show ?thesis by auto
  next
    case 3
    then obtain r where "roundDouble (- q) = Fin r" "0 \<le> r" "r \<le> 2 ^ k"
      using roundDouble_le [of "- q" k] assms by auto
    then have "roundDouble q = Fin (- r)"
      using roundDouble_minus [of "- q"] by simp
    then show ?thesis using \<open>0 \<le> r\<close> \<open>r \<le> 2 ^ k\<close> by auto
  qed
qed

lemma MAX_DURATION_value: "MAX_DURATION = Fin 240"
  by (simp add: MAX_DURATION_def roundDouble_Ints)

subsection \<open>The loop over whole days\<close>

lemma Day_whole: "Day (d * msPerDay) = d"
  by (simp add: Day_def msPerDay_def)

lemma getDay_east:
  assumes "0 \<le> localTZA h" and "localTZA h < msPerDay"
  shows "getDay h (d * msPerDay) = WeekDay (MakeDate d 0)"
proof -
  have "(d * msPerDay + localTZA h) div msPerDay = d"
    using assms by (simp add: msPerDay_def)
  then have "Day (LocalTime h (d * msPerDay)) = Day (MakeDate d 0)"
    by (simp add: LocalTime_def MakeDate_def Day_whole) (simp add: Day_def)
  then show ?thesis
    by (simp add: getDay_def WeekDay_def)
qed

lemma getDay_west:
  assumes "- msPerDay \<le> localTZA h" and "localTZA h < 0"
  shows "getDay h (d * msPerDay) = WeekDay (MakeDate (d - 1) 0)"
proof -
  have "d * msPerDay + localTZA h = msPerDay * (d - 1) + (localTZA h + msPerDay)"
    by (simp add: algebra_simps)
  then have "(d * msPerDay + localTZA h) div msPerDay = d - 1"
    using assms by (intro int_div_pos_eq [where r = "localTZA h + msPerDay"]) simp_all
  then have "Day (LocalTime h (d * msPerDay)) = Day (MakeDate (d - 1) 0)"
    by (simp add: LocalTime_def MakeDate_def Day_whole) (simp add: Day_def)
  then show ?thesis
    by (simp add: getDay_def WeekDay_def)
qed

lemma TimeClip_whole:
  "TimeClip (d * msPerDay) = (if - 100000000 \<le> d \<and> d \<le> 100000000 then Some (d * msPerDay) else None)"
  by (auto simp: TimeClip_def msPerDay_def)

lemma occurrences_invalid [simp]:
  "occurrences h sd st dur endD None acc = acc"
  by (simp add: occurrences.simps)

text \<open>
  From midnight UTC of day \<open>d1\<close> to midnight UTC of day \<open>d2\<close> the loop visits the midnight
  of every day, in every zone; the zone decides which day of the week it sees there.
\<close>

lemma occurrences_whole_days:
  assumes "- 100000000 \<le> d1" and "d2 \<le> 100000000"
  shows "occurrences h sd st dur (Some (d2 * msPerDay)) (Some (d1 * msPerDay)) acc =
           acc @ map (\<lambda>d. meetingBlock st dur (d * msPerDay))
                   (filter (\<lambda>d. arrayIncludes sd (getDay h (d * msPerDay))) [d1..d2])"
  using assms
proof (induction "nat (d2 - d1 + 1)" arbitrary: d1 acc)
  case 0
  then have "d2 < d1" by simp
  then show ?case by (subst occurrences.simps) (simp add: msPerDay_def)
next
  case (Suc n)
  then have le: "d1 \<le> d2" by simp
  let ?acc = "if arrayIncludes sd (getDay h (d1 * msPerDay))
              then acc @ [meetingBlock st dur (d1 * msPerDay)] else acc"
  have step: "occurrences h sd st dur (Some (d2 * msPerDay)) (Some (d1 * msPerDay)) acc =
        occurrences h sd st dur (Some (d2 * msPerDay)) (TimeClip ((d1 + 1) * msPerDay)) ?acc"
  proof -
    have nd: "setDate h (d1 * msPerDay) (getDate h (d1 * msPerDay) + 1)
                = TimeClip ((d1 + 1) * msPerDay)"
      by (simp add: setDate_next_day distrib_right)
    have cmp: "d1 * msPerDay \<le> d2 * msPerDay"
      using le by (simp add: msPerDay_def)
    show ?thesis
      by (subst occurrences.simps) (simp add: nd cmp)
  qed
  have up: "[d1..d2] = d1 # [d1 + 1..d2]"
    using le by (rule upto_rec1)
  show ?case
  proof (cases "d1 + 1 \<le> 100000000")
    case True
    have "n = nat (d2 - (d1 + 1) + 1)" using Suc.hyps(2) by simp
    moreover have "- 100000000 \<le> d1 + 1" using Suc.prems by simp
    ultimately have "occurrences h sd st dur (Some (d2 * msPerDay)) (Some ((d1 + 1) * msPerDay)) ?acc =
           ?acc @ map (\<lambda>d. meetingBlock st dur (d * msPerDay))
                   (filter (\<lambda>d. arrayIncludes sd (getDay h (d * msPerDay))) [d1 + 1..d2])"
      using Suc.hyps(1) Suc.prems(2) by blast
    moreover have "TimeClip ((d1 + 1) * msPerDay) = Some ((d1 + 1) * msPerDay)"
      using True Suc.prems by (simp add: TimeClip_whole)
    ultimately show ?thesis
      by (simp add: step up)
  next
    case False
    then have "d1 = d2" using le Suc.prems by simp
    then have single: "[d1..d2] = [d1]" by simp
    have "TimeClip ((d1 + 1) * msPerDay) = None"
      using False by (simp add: TimeClip_whole)
    then have "occurrences h sd st dur (Some (d2 * msPerDay)) (Some (d1 * msPerDay)) acc = ?acc"
      by (simp add: step)
    then show ?thesis
      by (simp add: single)
  qed
qed

subsection \<open>Dates in the ISO form are valid time values\<close>

lemma digitsFrom_bound:
  "digitsFrom 10 acc s = Some n \<Longrightarrow> n < (acc + 1) * 10 ^ length s"
proof (induction s arbitrary: acc)
  case Nil
  then show ?case by simp
next
  case (Cons c cs)
  then obtain d where d: "digitValue c = Some d" "d < 10"
    and rest: "digitsFrom 10 (acc * 10 + d) cs = Some n"
    by (auto split: option.splits if_splits)
  have "n < (acc * 10 + d + 1) * 10 ^ length cs"
    using Cons.IH [OF rest] .
  also have "\<dots> \<le> ((acc + 1) * 10) * 10 ^ length cs"
    using d(2) by (intro mult_right_mono) auto
  finally show ?case by (simp add: algebra_simps)
qed

lemma digits_bound: "digits 10 s = Some n \<Longrightarrow> n < 10 ^ length s"
  using digitsFrom_bound [of 0 s n] by (auto simp: digits_def split: if_splits)

lemma DayFromYear_bounds:
  "0 \<le> y \<Longrightarrow> y \<le> 9999 \<Longrightarrow> - 1000000 \<le> DayFromYear y \<and> DayFromYear y \<le> 4000000"
proof -
  assume y: "0 \<le> y" "y \<le> 9999"
  have a: "- 493 \<le> (y - 1969) div 4" "(y - 1969) div 4 \<le> 2007"
    using zdiv_mono1 [of "0 - 1969" "y - 1969" 4] zdiv_mono1 [of "y - 1969" "9999 - 1969" 4] y
    by simp_all
  have b: "- 20 \<le> (y - 1901) div 100" "(y - 1901) div 100 \<le> 80"
    using zdiv_mono1 [of "0 - 1901" "y - 1901" 100] zdiv_mono1 [of "y - 1901" "9999 - 1901" 100] y
    by simp_all
  have c: "- 5 \<le> (y - 1601) div 400" "(y - 1601) div 400 \<le> 20"
    using zdiv_mono1 [of "0 - 1601" "y - 1601" 400] zdiv_mono1 [of "y - 1601" "9999 - 1601" 400] y
    by simp_all
  have lin: "\<And>p q r :: int. - 493 \<le> p \<Longrightarrow> p \<le> 2007 \<Longrightarrow> - 20 \<le> q \<Longrightarrow> q \<le> 80
      \<Longrightarrow> - 5 \<le> r \<Longrightarrow> r \<le> 20
      \<Longrightarrow> - 1000000 \<le> 365 * (y - 1970) + p - q + r \<and> 365 * (y - 1970) + p - q + r \<le> 4000000"
    using y by auto
  show ?thesis
    unfolding DayFromYear_def using a b c by (rule lin)
qed

lemma daysBeforeMonth_bounds: "0 \<le> daysBeforeMonth l m \<and> daysBeforeMonth l m \<le> 366"
  by (simp add: daysBeforeMonth_def Let_def)

lemma parseISODay_date:
  "parseISODay s = Some d \<Longrightarrow>
     \<exists>y m dd :: nat. MakeDay (int y) (int m - 1) (int dd) = d \<and> y < 10000 \<and> 1 \<le> m \<and> m \<le> 12
        \<and> 1 \<le> dd \<and> int dd \<le> daysInMonth (int y) (int m)"
  unfolding parseISODay_def
  apply (simp split: list.splits option.splits if_splits)
  apply (intro exI conjI)
       apply assumption
      apply (auto dest!: digits_bound)
  done

lemma parseISODay_bounds:
  assumes "parseISODay s = Some d"
  shows "- 100000000 \<le> d \<and> d \<le> 100000000"
proof -
  obtain y m dd :: nat where d: "MakeDay (int y) (int m - 1) (int dd) = d"
    and b: "y < 10000" "1 \<le> m" "m \<le> 12" "1 \<le> dd" "int dd \<le> daysInMonth (int y) (int m)"
    using parseISODay_date [OF assms] by blast
  have "(int m - 1) div 12 = 0" "(int m - 1) mod 12 = int m - 1" using b by simp_all
  then have "d = DayFromYear (int y) + daysBeforeMonth (isLeapYear (int y)) (int m - 1) + int dd - 1"
    using d by (auto simp: MakeDay_def Let_def)
  moreover have "0 \<le> int y" "int y \<le> 9999" using b by simp_all
  moreover have "int dd \<le> 366"
    using b(5) daysBeforeMonth_bounds [of "isLeapYear (int y)" "int m"]
      daysBeforeMonth_bounds [of "isLeapYear (int y)" "int m - 1"]
    by (simp add: daysInMonth_def)
  ultimately show ?thesis
    using DayFromYear_bounds [of "int y"] daysBeforeMonth_bounds [of "isLeapYear (int y)" "int m - 1"] b
    by auto
qed

subsection \<open>The calendar: a date printed in the ISO form parses to the same day\<close>

lemma div_succ:
  fixes a c :: int
  assumes "0 < c"
  shows "(a + 1) div c = a div c + (if (a + 1) mod c = 0 then 1 else 0)"
proof (cases "a mod c + 1 = c")
  case True
  have e: "c * (a div c) + a mod c = a" by simp
  have "a + 1 = c * (a div c) + c" using True e by linarith
  then have "a + 1 = c * (a div c + 1) + 0" by (simp add: algebra_simps)
  then have "(a + 1) div c = a div c + 1" "(a + 1) mod c = 0"
    using assms int_div_pos_eq [of "a + 1" c "a div c + 1" 0]
      int_mod_pos_eq [of "a + 1" c "a div c + 1" 0] by simp_all
  then show ?thesis by simp
next
  case False
  have r: "0 \<le> a mod c" "a mod c < c" using assms by simp_all
  then have b: "0 \<le> a mod c + 1" "a mod c + 1 < c" using False by simp_all
  have e: "c * (a div c) + a mod c = a" by simp
  have "a + 1 = c * (a div c) + (a mod c + 1)"
    using e by linarith
  then have "(a + 1) div c = a div c" "(a + 1) mod c = a mod c + 1"
    using b int_div_pos_eq [of "a + 1" c "a div c" "a mod c + 1"]
      int_mod_pos_eq [of "a + 1" c "a div c" "a mod c + 1"] by simp_all
  then show ?thesis using r by simp
qed

lemma leap_shift:
  fixes y :: int
  shows "(y - 1968) mod 4 = y mod 4" "(y - 1900) mod 100 = y mod 100"
    "(y - 1600) mod 400 = y mod 400"
proof -
  have "(y + 4 * (- 492)) mod 4 = y mod 4" by (rule mod_mult_self2)
  then show "(y - 1968) mod 4 = y mod 4" by simp
  have "(y + 100 * (- 19)) mod 100 = y mod 100" by (rule mod_mult_self2)
  then show "(y - 1900) mod 100 = y mod 100" by simp
  have "(y + 400 * (- 4)) mod 400 = y mod 400" by (rule mod_mult_self2)
  then show "(y - 1600) mod 400 = y mod 400" by simp
qed

lemma century_divisibility:
  fixes y :: int
  shows "y mod 100 = 0 \<Longrightarrow> y mod 4 = 0" "y mod 400 = 0 \<Longrightarrow> y mod 100 = 0"
proof -
  have "(4::int) dvd 100" "(100::int) dvd 400" by simp_all
  then show "y mod 100 = 0 \<Longrightarrow> y mod 4 = 0" "y mod 400 = 0 \<Longrightarrow> y mod 100 = 0"
    unfolding mod_eq_0_iff_dvd by (blast intro: dvd_trans)+
qed

lemma leap_count:
  assumes "P100 \<Longrightarrow> P4" and "P400 \<Longrightarrow> P100"
  shows "(if P4 \<and> (\<not> P100 \<or> P400) then 366 else 365)
           = 365 + (if P4 then 1 else 0) - (if P100 then 1 else 0) + (if P400 then (1::int) else 0)"
  using assms by (cases P4; cases P100; cases P400; simp)

lemma year_step:
  fixes q4 q100 q400 :: int
  assumes "r4 = q4 + i4" and "r100 = q100 + i100" and "r400 = q400 + i400"
  shows "365 * (y - 1969) + r4 - r100 + r400
           = (365 * (y - 1970) + q4 - q100 + q400) + (365 + i4 - i100 + i400)"
  using assms by simp

lemma DayFromYear_Suc:
  "DayFromYear (y + 1) = DayFromYear y + (if isLeapYear y then 366 else 365)"
proof -
  have s: "y - 1969 + 1 = y - 1968" "y - 1901 + 1 = y - 1900" "y - 1601 + 1 = y - 1600"
    by simp_all
  have a: "(y - 1968) div 4 = (y - 1969) div 4 + (if y mod 4 = 0 then 1 else 0)"
    using div_succ [of 4 "y - 1969"] unfolding s leap_shift by simp
  have b: "(y - 1900) div 100 = (y - 1901) div 100 + (if y mod 100 = 0 then 1 else 0)"
    using div_succ [of 100 "y - 1901"] unfolding s leap_shift by simp
  have c: "(y - 1600) div 400 = (y - 1601) div 400 + (if y mod 400 = 0 then 1 else 0)"
    using div_succ [of 400 "y - 1601"] unfolding s leap_shift by simp
  have t: "y + 1 - 1970 = y - 1969" "y + 1 - 1969 = y - 1968" "y + 1 - 1901 = y - 1900"
    "y + 1 - 1601 = y - 1600"
    by simp_all
  have "DayFromYear (y + 1)
          = 365 * (y - 1969) + (y - 1968) div 4 - (y - 1900) div 100 + (y - 1600) div 400"
    unfolding DayFromYear_def t ..
  also have "\<dots> = DayFromYear y
       + (365 + (if y mod 4 = 0 then 1 else 0) - (if y mod 100 = 0 then 1 else 0)
          + (if y mod 400 = 0 then 1 else 0))"
    unfolding DayFromYear_def by (rule year_step [OF a b c])
  also have "365 + (if y mod 4 = 0 then 1 else 0) - (if y mod 100 = 0 then 1 else 0)
          + (if y mod 400 = 0 then 1 else 0) = (if isLeapYear y then 366 else (365::int))"
    unfolding isLeapYear_def
    using leap_count [of "y mod 100 = 0" "y mod 4 = 0" "y mod 400 = 0"]
      century_divisibility [of y] by simp
  finally show ?thesis .
qed


lemma div_bounds:
  fixes a c :: int
  assumes "0 < c"
  shows "c * (a div c) \<le> a" "a < c * (a div c) + c"
proof -
  have e: "c * (a div c) + a mod c = a" by simp
  have r: "0 \<le> a mod c" "a mod c < c" using assms by simp_all
  show "c * (a div c) \<le> a" using e r by linarith
  show "a < c * (a div c) + c" using e r by linarith
qed

lemma DayFromYear_estimate:
  "146097 * (y - 1970) - 506 \<le> 400 * DayFromYear y"
  "400 * DayFromYear y \<le> 146097 * (y - 1970) + 589"
proof -
  have lin: "\<And>p q r :: int. 4 * p \<le> y - 1969 \<Longrightarrow> y - 1969 < 4 * p + 4
      \<Longrightarrow> 100 * q \<le> y - 1901 \<Longrightarrow> y - 1901 < 100 * q + 100
      \<Longrightarrow> 400 * r \<le> y - 1601 \<Longrightarrow> y - 1601 < 400 * r + 400
      \<Longrightarrow> 146097 * (y - 1970) - 506 \<le> 400 * (365 * (y - 1970) + p - q + r)
        \<and> 400 * (365 * (y - 1970) + p - q + r) \<le> 146097 * (y - 1970) + 589"
    by auto
  have "146097 * (y - 1970) - 506 \<le> 400 * DayFromYear y
        \<and> 400 * DayFromYear y \<le> 146097 * (y - 1970) + 589"
    unfolding DayFromYear_def
    by (rule lin) (simp_all only: div_bounds [of 4] div_bounds [of 100] div_bounds [of 400]
        zero_less_numeral)
  then show "146097 * (y - 1970) - 506 \<le> 400 * DayFromYear y"
    "400 * DayFromYear y \<le> 146097 * (y - 1970) + 589" by simp_all
qed

lemma yearFromDay_unique:
  assumes "DayFromYear y \<le> d" and "d < DayFromYear (y + 1)"
  shows "yearFromDay d = y"
proof -
  define e where "e = (d * 400) div 146097"
  have e: "146097 * e \<le> d * 400" "d * 400 < 146097 * e + 146097"
    unfolding e_def by (rule div_bounds, simp)+
  have lo: "146097 * (y - 1970) - 506 \<le> 400 * DayFromYear y"
    by (rule DayFromYear_estimate)
  have hi: "400 * DayFromYear (y + 1) \<le> 146097 * (y + 1 - 1970) + 589"
    by (rule DayFromYear_estimate)
  have lin: "\<And>a b :: int. 146097 * (y - 1970) - 506 \<le> 400 * a \<Longrightarrow> a \<le> d \<Longrightarrow> d < b
      \<Longrightarrow> 400 * b \<le> 146097 * (y + 1 - 1970) + 589
      \<Longrightarrow> y - 1971 \<le> e \<and> e \<le> y - 1969"
    using e by auto
  have range: "y - 1971 \<le> e \<and> e \<le> y - 1969"
    by (rule lin [OF lo assms hi])
  have below: "DayFromYear (y - 1) \<le> DayFromYear y"
    using DayFromYear_Suc [of "y - 1"] by (simp split: if_splits)
  consider "e = y - 1971" | "e = y - 1970" | "e = y - 1969"
    using range by linarith
  then show ?thesis
  proof cases
    case 1
    then have h: "1970 + d * 400 div 146097 = y - 1" by (simp add: e_def)
    show ?thesis
      unfolding yearFromDay_def Let_def h using assms below by simp
  next
    case 2
    then have h: "1970 + d * 400 div 146097 = y" by (simp add: e_def)
    show ?thesis
      unfolding yearFromDay_def Let_def h using assms by simp
  next
    case 3
    then have h: "1970 + d * 400 div 146097 = y + 1" by (simp add: e_def)
    show ?thesis
      unfolding yearFromDay_def Let_def h using assms by simp
  qed
qed


lemma month_date:
  assumes "YearFromTime t = y" and "DayWithinYear t = k"
    and "0 \<le> k" and "k < (if isLeapYear y then 366 else 365)"
  shows "0 \<le> MonthFromTime t \<and> MonthFromTime t \<le> 11 \<and> 1 \<le> DateFromTime t
    \<and> DateFromTime t \<le> daysInMonth y (MonthFromTime t + 1)
    \<and> daysBeforeMonth (isLeapYear y) (MonthFromTime t) + DateFromTime t - 1 = k"
proof (cases "isLeapYear y")
  case True
  then show ?thesis
    using assms
    by (simp add: MonthFromTime_def DateFromTime_def daysInMonth_def daysBeforeMonth_def Let_def)
next
  case False
  then show ?thesis
    using assms
    by (simp add: MonthFromTime_def DateFromTime_def daysInMonth_def daysBeforeMonth_def Let_def)
qed


lemma digit_chars:
  assumes "k < 10"
  shows "digitValue (''0123456789'' ! k) = Some k" and "''0123456789'' ! k \<noteq> CHR ''T''"
    and "''0123456789'' ! k \<noteq> CHR ''-''"
proof -
  have "k \<in> {0, 1, 2, 3, 4, 5, 6, 7, 8, 9}" using assms by auto
  then show "digitValue (''0123456789'' ! k) = Some k" and "''0123456789'' ! k \<noteq> CHR ''T''"
    and "''0123456789'' ! k \<noteq> CHR ''-''"
    by (auto simp: digitValue_def)
qed

lemma digitChar_facts:
  "digitValue (digitChar n) = Some (n mod 10)" "digitChar n \<noteq> CHR ''T''"
  "digitChar n \<noteq> CHR ''-''"
  using digit_chars [of "n mod 10"] by (simp_all add: digitChar_def)

lemma digits_pad2:
  assumes "n < 100"
  shows "digits 10 (pad2 n) = Some n"
proof -
  have "n div 10 mod 10 = n div 10" using assms by simp
  moreover have "n div 10 * 10 + n mod 10 = n" by simp
  ultimately show ?thesis
    by (simp add: digits_def pad2_def digitChar_facts)
qed

lemma digits_pad4:
  assumes "n < 10000"
  shows "digits 10 (pad4 n) = Some n"
proof -
  have a: "n div 1000 mod 10 = n div 1000" using assms by simp
  have b: "n div 1000 = n div 100 div 10" "n div 100 = n div 10 div 10"
    by (simp_all add: div_mult2_eq)
  have c: "n div 100 div 10 * 10 + n div 100 mod 10 = n div 100"
    "n div 10 div 10 * 10 + n div 10 mod 10 = n div 10" "n div 10 * 10 + n mod 10 = n"
    by simp_all
  have "((n div 1000 * 10 + n div 100 mod 10) * 10 + n div 10 mod 10) * 10 + n mod 10 = n"
    using c unfolding b by simp
  moreover have "n div 1000 < 10" using assms by (simp add: less_mult_imp_div_less)
  ultimately show ?thesis
    by (simp add: digits_def pad4_def pad3_def pad2_def digitChar_facts a)
qed

lemma split_first:
  "sep \<notin> set a \<Longrightarrow> split sep (a @ sep # r) = a # split sep r"
  by (induction a) auto

lemma isoDatePart_parse:
  assumes "0 \<le> y" and "y \<le> 9999" and "DayFromYear y \<le> d" and "d < DayFromYear (y + 1)"
  shows "\<exists>x. isoDatePart (MakeDate d 0) = JsString x \<and> parseISODay x = Some d"
proof -
  let ?t = "MakeDate d 0"
  have day: "Day ?t = d" by (simp add: MakeDate_def Day_def msPerDay_def)
  have year: "YearFromTime ?t = y"
    using yearFromDay_unique [OF assms(3,4)] by (simp add: YearFromTime_def day)
  have within: "DayWithinYear ?t = d - DayFromYear y"
    by (simp add: DayWithinYear_def day year)
  have len: "d - DayFromYear y < (if isLeapYear y then 366 else 365)"
    using assms(4) DayFromYear_Suc [of y] by (simp split: if_splits)
  define m where "m = MonthFromTime ?t"
  define dd where "dd = DateFromTime ?t"
  have md: "0 \<le> m" "m \<le> 11" "1 \<le> dd" "dd \<le> daysInMonth y (m + 1)"
    "daysBeforeMonth (isLeapYear y) m + dd - 1 = d - DayFromYear y"
    using month_date [OF year within _ len] assms(3) by (simp_all add: m_def dd_def)
  have "dd \<le> 31"
    using md(1,2,4) by (simp add: daysInMonth_def daysBeforeMonth_def Let_def split: if_splits)
  let ?x = "pad4 (nat y) @ ''-'' @ pad2 (nat (m + 1)) @ ''-'' @ pad2 (nat dd)"
  have "CHR ''T'' \<notin> set ?x"
    by (simp add: pad4_def pad3_def pad2_def digitChar_facts(2) [symmetric])
  then have "split CHR ''T'' (?x @ CHR ''T'' # r) = ?x # split CHR ''T'' r" for r
    by (rule split_first)
  then have iso: "isoDatePart ?t = JsString ?x"
    using assms(1,2)
    by (simp add: isoDatePart_def toISOString_def yearString_def year m_def dd_def Let_def)
  have "digits 10 (pad4 (nat y)) = Some (nat y)" "digits 10 (pad2 (nat (m + 1))) = Some (nat (m + 1))"
    "digits 10 (pad2 (nat dd)) = Some (nat dd)"
    using assms(1,2) md(1,2,3) \<open>dd \<le> 31\<close> by (simp_all add: digits_pad4 digits_pad2)
  moreover have "nat (m + 1) \<le> 12" "1 \<le> nat (m + 1)" "1 \<le> nat dd"
    "int (nat dd) = dd" "int (nat (m + 1)) = m + 1" "int (nat y) = y"
    using assms(1) md(1-3) by simp_all
  ultimately have "parseISODay ?x = Some (MakeDay y m dd)"
    using md(4)
    by (simp add: parseISODay_def pad4_def pad3_def pad2_def)
  moreover have "MakeDay y m dd = d"
    using md by (simp add: MakeDay_def Let_def)
  ultimately show ?thesis using iso by simp
qed


lemma DayFromYear_mono:
  assumes "y \<le> y'"
  shows "DayFromYear y \<le> DayFromYear y'"
  using assms
proof (induction y' rule: int_ge_induct)
  case base
  show ?case by simp
next
  case (step i)
  then show ?case
    using DayFromYear_Suc [of i] by (simp split: if_splits)
qed

lemma year_exists:
  assumes "DayFromYear 0 \<le> d" and "d < DayFromYear (int n)"
  shows "\<exists>y. 0 \<le> y \<and> y < int n \<and> DayFromYear y \<le> d \<and> d < DayFromYear (y + 1)"
  using assms(2)
proof (induction n)
  case 0
  then show ?case using assms(1) by simp
next
  case (Suc n)
  show ?case
  proof (cases "d < DayFromYear (int n)")
    case True
    then obtain y where "0 \<le> y" "y < int n" "DayFromYear y \<le> d" "d < DayFromYear (y + 1)"
      using Suc.IH by blast
    then show ?thesis by (intro exI [of _ y]) simp
  next
    case False
    have s: "int (Suc n) = int n + 1" by simp
    have "d < DayFromYear (int n + 1)" using Suc.prems unfolding s .
    then show ?thesis
      using False by (intro exI [of _ "int n"]) simp
  qed
qed

lemma parseISODay_range:
  assumes "parseISODay s = Some d"
  shows "DayFromYear 0 \<le> d \<and> d < DayFromYear 10000"
proof -
  obtain y m dd :: nat where d: "MakeDay (int y) (int m - 1) (int dd) = d"
    and b: "y < 10000" "1 \<le> m" "m \<le> 12" "1 \<le> dd" "int dd \<le> daysInMonth (int y) (int m)"
    using parseISODay_date [OF assms] by blast
  have "(int m - 1) div 12 = 0" "(int m - 1) mod 12 = int m - 1" using b by simp_all
  then have e: "d = DayFromYear (int y) + daysBeforeMonth (isLeapYear (int y)) (int m - 1)
                    + int dd - 1"
    using d by (auto simp: MakeDay_def Let_def)
  have lo: "0 \<le> daysBeforeMonth (isLeapYear (int y)) (int m - 1)"
    by (simp add: daysBeforeMonth_def Let_def)
  have hi: "daysBeforeMonth (isLeapYear (int y)) (int m)
              \<le> (if isLeapYear (int y) then 366 else 365)"
    by (simp add: daysBeforeMonth_def Let_def)
  have "DayFromYear 0 \<le> DayFromYear (int y)" by (rule DayFromYear_mono) simp
  then have "DayFromYear 0 \<le> d" using e lo b(4) by linarith
  moreover have "DayFromYear (int y + 1) \<le> DayFromYear 10000"
    using b(1) by (intro DayFromYear_mono) simp
  then have "d < DayFromYear 10000"
    using e hi b(5) DayFromYear_Suc [of "int y"]
    by (simp add: daysInMonth_def split: if_splits)
  ultimately show ?thesis by simp
qed

lemma isoDatePart_in_range:
  assumes "DayFromYear 0 \<le> d" and "d < DayFromYear 10000"
  shows "\<exists>x. isoDatePart (MakeDate d 0) = JsString x \<and> parseISODay x = Some d"
proof -
  have "DayFromYear 0 \<le> d" "d < DayFromYear (int 10000)"
    using assms by simp_all
  then obtain y where "0 \<le> y" "y < int 10000" "DayFromYear y \<le> d" "d < DayFromYear (y + 1)"
    using year_exists by blast
  then show ?thesis
    by (intro isoDatePart_parse [of y]) simp_all
qed

subsection \<open>Durations and blocks of class meetings\<close>

text \<open>
  When the hours and minutes are integers of magnitude up to \<open>10^13\<close>, every number that the
  handler computes on the way to the duration is an integer below \<open>2^53\<close>: nothing is
  rounded, and the duration is the one of the specification.
\<close>

lemma minutes_exact:
  assumes "h \<in> \<int>" and "m \<in> \<int>" and "\<bar>h\<bar> \<le> 10 ^ 13" and "\<bar>m\<bar> \<le> 10 ^ 13"
  shows "jsAdd (jsMul (Fin h) (Fin 60)) (Fin m) = Fin (h * 60 + m)"
proof -
  have "jsMul (Fin h) (Fin 60) = Fin (h * 60)"
    using assms(1,3) by (simp add: roundDouble_Ints)
  moreover have "roundDouble (h * 60 + m) = Fin (h * 60 + m)"
    using assms by (intro roundDouble_Ints) auto
  ultimately show ?thesis by simp
qed

lemma classDuration_exact:
  assumes "hourMinute st = (JsNumber (Fin sh), JsNumber (Fin sm))"
    and "hourMinute et = (JsNumber (Fin eh), JsNumber (Fin em))"
    and "sh \<in> \<int>" and "sm \<in> \<int>" and "eh \<in> \<int>" and "em \<in> \<int>"
    and "\<bar>sh\<bar> \<le> 10 ^ 13" and "\<bar>sm\<bar> \<le> 10 ^ 13" and "\<bar>eh\<bar> \<le> 10 ^ 13" and "\<bar>em\<bar> \<le> 10 ^ 13"
  shows "classDuration st et = Some (Fin (specDuration sh sm eh em))"
proof -
  define S where "S = sh * 60 + sm"
  define E where "E = eh * 60 + em"
  have S: "jsAdd (jsMul (Fin sh) (Fin 60)) (Fin sm) = Fin S"
    unfolding S_def using assms(3,4,7,8) by (rule minutes_exact)
  have E: "jsAdd (jsMul (Fin eh) (Fin 60)) (Fin em) = Fin E"
    unfolding E_def using assms(5,6,9,10) by (rule minutes_exact)
  have int: "S \<in> \<int>" "E \<in> \<int>"
    using assms(3-6) by (simp_all add: S_def E_def)
  have bound: "\<bar>S\<bar> \<le> 61 * 10 ^ 13" "\<bar>E\<bar> \<le> 61 * 10 ^ 13"
    using assms(7-10) by (auto simp: S_def E_def)
  have d0: "jsSub (Fin E) (Fin S) = Fin (E - S)"
    using int bound by (simp add: jsSub_def roundDouble_Ints)
  have day: "jsMul (Fin 24) (Fin 60) = Fin 1440"
    by (simp add: roundDouble_Ints)
  have d1: "jsAdd (Fin (E - S)) (Fin 1440) = Fin (E - S + 1440)"
    using int bound by (simp add: roundDouble_Ints)
  show ?thesis
    using assms(1,2)
    by (simp add: classDuration_def isNaN_def S E d0 day d1 jsGt_def MIN_DURATION_def
        MAX_DURATION_value specDuration_def Let_def S_def [symmetric] E_def [symmetric]
        del: jsMul.simps jsAdd.simps)
qed

text \<open>
  Whatever the times, a duration is a number from 15 to 240 or \<open>NaN\<close>: the handler raises
  what is below 15 and caps what is above 240, and \<open>NaN\<close> is neither.
\<close>

lemma clamp_range:
  fixes d1 :: jsnum
  defines "d2 \<equiv> (if jsLt d1 MIN_DURATION then MIN_DURATION else d1)"
  defines "d3 \<equiv> (if jsGt d2 MAX_DURATION then MAX_DURATION else d2)"
  shows "d3 = NaN \<or> (\<exists>r. d3 = Fin r \<and> 15 \<le> r \<and> r \<le> 240)"
  unfolding d3_def d2_def
  by (cases d1) (auto simp: MIN_DURATION_def MAX_DURATION_value jsGt_def)

lemma classDuration_range:
  assumes "classDuration st et = Some x"
  shows "x = NaN \<or> (\<exists>r. x = Fin r \<and> 15 \<le> r \<and> r \<le> 240)"
proof -
  obtain sh sm eh em where hm: "hourMinute st = (sh, sm)" "hourMinute et = (eh, em)"
    by (cases "hourMinute st"; cases "hourMinute et") blast
  define d0 where "d0 = jsSub (jsAdd (jsMul (toNumber eh) (Fin 60)) (toNumber em))
                          (jsAdd (jsMul (toNumber sh) (Fin 60)) (toNumber sm))"
  define d1 where "d1 = (if jsLt d0 (Fin 0) then jsAdd d0 (jsMul (Fin 24) (Fin 60)) else d0)"
  have "classDuration st et \<noteq> None" using assms by simp
  then have "classDuration st et
      = Some (if jsGt (if jsLt d1 MIN_DURATION then MIN_DURATION else d1) MAX_DURATION
              then MAX_DURATION else if jsLt d1 MIN_DURATION then MIN_DURATION else d1)"
    unfolding classDuration_def hm Let_def d1_def d0_def
    by (simp split: if_split_asm)
  then have "x = (if jsGt (if jsLt d1 MIN_DURATION then MIN_DURATION else d1) MAX_DURATION
              then MAX_DURATION else if jsLt d1 MIN_DURATION then MIN_DURATION else d1)"
    using assms by simp
  then show ?thesis
    using clamp_range [of d1] by simp
qed

text \<open>
  The duration is \<open>NaN\<close> only through an infinity: when the hours and minutes are finite and
  of magnitude up to \<open>2^1000\<close>, no product or sum overflows, and the duration is a number from
  15 to 240.
\<close>

lemma minutes_finite:
  assumes "\<bar>h\<bar> \<le> 2 ^ 1000" and "\<bar>m\<bar> \<le> 2 ^ 1000"
  shows "\<exists>r. jsAdd (jsMul (Fin h) (Fin 60)) (Fin m) = Fin r \<and> \<bar>r\<bar> \<le> 2 ^ 1007"
proof -
  define B :: rat where "B = 2 ^ 1000"
  have B: "0 \<le> B" "2 ^ 1006 = B * 64" "2 ^ 1007 = B * 128"
    by (simp_all add: B_def)
  have "\<bar>h * 60\<bar> \<le> 2 ^ 1006"
    using assms(1) unfolding B(2) B_def [symmetric] by (simp add: abs_mult)
  then obtain r1 where r1: "roundDouble (h * 60) = Fin r1" "\<bar>r1\<bar> \<le> 2 ^ 1006"
    using roundDouble_bounded [of "h * 60" 1006] by auto
  have "\<bar>r1 + m\<bar> \<le> 2 ^ 1007"
    using r1(2) assms(2) B(1) unfolding B(2,3) B_def [symmetric] by linarith
  then obtain r where "roundDouble (r1 + m) = Fin r" "\<bar>r\<bar> \<le> 2 ^ 1007"
    using roundDouble_bounded [of "r1 + m" 1007] by auto
  then show ?thesis using r1(1) by simp
qed

lemma clamp_finite:
  "(if jsGt (if jsLt (Fin r) MIN_DURATION then MIN_DURATION else Fin r) MAX_DURATION
    then MAX_DURATION else if jsLt (Fin r) MIN_DURATION then MIN_DURATION else Fin r)
   = Fin (if r < 15 then 15 else if 240 < r then 240 else r)"
  by (simp add: MIN_DURATION_def MAX_DURATION_value jsGt_def)

lemma classDuration_finite:
  assumes "hourMinute st = (JsNumber (Fin sh), JsNumber (Fin sm))"
    and "hourMinute et = (JsNumber (Fin eh), JsNumber (Fin em))"
    and "\<bar>sh\<bar> \<le> 2 ^ 1000" and "\<bar>sm\<bar> \<le> 2 ^ 1000" and "\<bar>eh\<bar> \<le> 2 ^ 1000" and "\<bar>em\<bar> \<le> 2 ^ 1000"
  shows "\<exists>r. classDuration st et = Some (Fin r) \<and> 15 \<le> r \<and> r \<le> 240"
proof -
  define B :: rat where "B = 2 ^ 1000"
  have B: "1440 \<le> B" "2 ^ 1007 = B * 128" "2 ^ 1008 = B * 256" "2 ^ 1009 = B * 512"
    by (simp_all add: B_def)
  obtain S where S: "jsAdd (jsMul (Fin sh) (Fin 60)) (Fin sm) = Fin S" "\<bar>S\<bar> \<le> 2 ^ 1007"
    using minutes_finite [OF assms(3,4)] by blast
  obtain E where E: "jsAdd (jsMul (Fin eh) (Fin 60)) (Fin em) = Fin E" "\<bar>E\<bar> \<le> 2 ^ 1007"
    using minutes_finite [OF assms(5,6)] by blast
  have "\<bar>E - S\<bar> \<le> 2 ^ 1008"
    using S(2) E(2) unfolding B by linarith
  then obtain r0 where r0: "roundDouble (E - S) = Fin r0" "\<bar>r0\<bar> \<le> 2 ^ 1008"
    using roundDouble_bounded [of "E - S" 1008] by auto
  have d0: "jsSub (Fin E) (Fin S) = Fin r0"
    using r0(1) by (simp add: jsSub_def)
  have day: "jsMul (Fin 24) (Fin 60) = Fin 1440"
    by (simp add: roundDouble_Ints)
  have "\<bar>r0 + 1440\<bar> \<le> 2 ^ 1009"
    using r0(2) B(1) unfolding B(3,4) by linarith
  then obtain r1 where r1: "roundDouble (r0 + 1440) = Fin r1"
    using roundDouble_bounded [of "r0 + 1440" 1009] by auto
  define d where "d = (if r0 < 0 then r1 else r0)"
  have "classDuration st et
          = Some (if jsGt (if jsLt (Fin d) MIN_DURATION then MIN_DURATION else Fin d) MAX_DURATION
                  then MAX_DURATION
                  else if jsLt (Fin d) MIN_DURATION then MIN_DURATION else Fin d)"
    using assms(1,2) r1
    by (simp add: classDuration_def isNaN_def S(1) E(1) d0 day d_def Let_def
        del: jsMul.simps)
  then show ?thesis
    unfolding clamp_finite by simp
qed

lemma occurrences_blocks:
  "b \<in> set (occurrences h sd st dur endD cur acc)
     \<Longrightarrow> b \<in> set acc \<or> (\<exists>t. b = meetingBlock st dur t)"
proof (induction h sd st dur endD cur acc rule: occurrences.induct)
  case (1 h sd st dur endD currentDate blocks)
  show ?case
  proof (cases "\<exists>t e. currentDate = Some t \<and> endD = Some e \<and> t \<le> e")
    case True
    then obtain t e where te: "currentDate = Some t" "endD = Some e" "t \<le> e" by blast
    let ?acc = "if arrayIncludes sd (getDay h t) then blocks @ [meetingBlock st dur t]
                else blocks"
    have "b \<in> set (occurrences h sd st dur endD (setDate h t (getDate h t + 1)) ?acc)"
      using "1.prems" te by (subst (asm) occurrences.simps) simp
    then have "b \<in> set ?acc \<or> (\<exists>t. b = meetingBlock st dur t)"
      using "1.IH" te by simp
    then show ?thesis by (auto split: if_splits)
  next
    case False
    then have "occurrences h sd st dur endD currentDate blocks = blocks"
      by (subst occurrences.simps) (auto split: option.splits)
    then show ?thesis using "1.prems" by simp
  qed
qed

lemma hourMinute_empty: "hourMinute [] = (JsNumber (Fin 0), JsUndefined)"
  by (simp add: hourMinute_def element_def stringToNumber_def trim_def)

lemma classDuration_empty: "classDuration [] et = None" "classDuration st [] = None"
  by (simp_all add: classDuration_def hourMinute_empty isNaN_def split: prod.splits)

lemma classDuration_truthy:
  assumes "classDuration st et = Some dur"
  shows "truthy (JsString st) \<and> truthy (JsString et)"
  using assms classDuration_empty [of et] classDuration_empty(2) [of st]
  by (cases st; cases et) auto

lemma classMeetingBlocks_usable:
  assumes "days s = Some ds" and "startTime s = Some st" and "endTime s = Some et"
    and "classDuration st et = Some dur"
  shows "classMeetingBlocks h (Some s) =
           (if scheduleDays ds = [] then []
            else occurrences h (scheduleDays ds) st dur (scheduleEnd h s) (scheduleStart h s) [])"
  using assms classDuration_truthy [OF assms(4)]
  by (simp add: classMeetingBlocks_def)

lemma classMeetingBlocks_unusable:
  assumes "sched = None \<or> (\<exists>s. sched = Some s \<and> (days s = None \<or> \<not> present (startTime s)
             \<or> \<not> present (endTime s)
             \<or> (\<exists>st et. startTime s = Some st \<and> endTime s = Some et \<and> classDuration st et = None)))"
  shows "classMeetingBlocks h sched = []"
  using assms
  by (auto simp: classMeetingBlocks_def present_def split: option.splits)

lemma classMeetingBlocks_block:
  assumes "b \<in> set (classMeetingBlocks h (Some s))"
    and "startTime s = Some st" and "endTime s = Some et"
  shows "\<exists>dur t. classDuration st et = Some dur \<and> b = meetingBlock st dur t"
proof (cases "classDuration st et")
  case None
  then have "classMeetingBlocks h (Some s) = []"
    using assms(2,3) by (intro classMeetingBlocks_unusable) auto
  then show ?thesis using assms(1) by simp
next
  case (Some dur)
  show ?thesis
  proof (cases "days s")
    case None
    then have "classMeetingBlocks h (Some s) = []"
      by (intro classMeetingBlocks_unusable) auto
    then show ?thesis using assms(1) by simp
  next
    case (Some ds)
    then have "b \<in> set [] \<or> (\<exists>t. b = meetingBlock st dur t)"
      using assms \<open>classDuration st et = Some dur\<close>
      by (auto simp: classMeetingBlocks_usable split: if_splits dest: occurrences_blocks)
    then show ?thesis using \<open>classDuration st et = Some dur\<close> by simp
  qed
qed

subsection \<open>The combined list\<close>

lemma arrayIndex_out_of_range:
  "r < 0 \<or> of_nat len \<le> r \<Longrightarrow> arrayIndex len (JsNumber (Fin r)) = None"
  by (auto simp: arrayIndex_def)

lemma allStudyBlocks_append:
  "allStudyBlocks u c ms ss ias =
     map (classMeetingRow u c) ms @ (if ias = [] then [] else map (assignmentRowOf u c ias) ss)"
  by (cases ms; cases ss; cases ias) (simp_all add: allStudyBlocks_def)

subsection \<open>Schedules that give no class meeting\<close>

lemma classDuration_None_iff:
  "classDuration st et = None \<longleftrightarrow>
     isNaN (fst (hourMinute st)) \<or> isNaN (snd (hourMinute st))
     \<or> isNaN (fst (hourMinute et)) \<or> isNaN (snd (hourMinute et))"
  by (simp add: classDuration_def Let_def split: prod.splits)

lemma occurrences_no_match:
  "(\<And>k. \<not> arrayIncludes sd k) \<Longrightarrow> occurrences h sd st dur endD cur acc = acc"
proof (induction h sd st dur endD cur acc rule: occurrences.induct)
  case (1 h sd st dur endD currentDate blocks)
  show ?case
  proof (cases "\<exists>t e. currentDate = Some t \<and> endD = Some e \<and> t \<le> e")
    case True
    then obtain t e where te: "currentDate = Some t" "endD = Some e" "t \<le> e" by blast
    have "occurrences h sd st dur endD currentDate blocks
            = occurrences h sd st dur endD (setDate h t (getDate h t + 1)) blocks"
      using te "1.prems" by (subst occurrences.simps) simp
    also have "\<dots> = blocks"
      using "1.IH" te "1.prems" by simp
    finally show ?thesis .
  next
    case False
    then show ?thesis
      by (subst occurrences.simps) (auto split: option.splits)
  qed
qed

lemma classMeetingBlocks_no_weekday:
  assumes "days s = Some ds" and "\<And>d n. d \<in> set ds \<Longrightarrow> resolveDay d \<noteq> Some (DayNumber n)"
  shows "classMeetingBlocks h (Some s) = []"
proof -
  have none: "\<not> arrayIncludes (scheduleDays ds) k" for k
  proof
    assume "arrayIncludes (scheduleDays ds) k"
    then obtain d where "d \<in> set ds" "resolveDay d = Some (DayNumber k)"
      by (auto simp: arrayIncludes_def scheduleDays_def)
    then show False using assms(2) by blast
  qed
  show ?thesis
  proof (cases "\<exists>st et dur. startTime s = Some st \<and> endTime s = Some et
                  \<and> classDuration st et = Some dur")
    case True
    then obtain st et dur where "startTime s = Some st" "endTime s = Some et"
      "classDuration st et = Some dur" by blast
    then show ?thesis
      using none by (simp add: classMeetingBlocks_usable [OF assms(1)] occurrences_no_match)
  next
    case False
    then show ?thesis
      by (intro classMeetingBlocks_unusable) (auto simp: present_def split: option.splits)
  qed
qed

lemma specDuration_Ints:
  "sh \<in> \<int> \<Longrightarrow> sm \<in> \<int> \<Longrightarrow> eh \<in> \<int> \<Longrightarrow> em \<in> \<int> \<Longrightarrow> specDuration sh sm eh em \<in> \<int>"
  by (simp add: specDuration_def Let_def)

subsection \<open>Class meetings between two midnights of UTC\<close>

lemma arrayIncludes_Nil [simp]: "\<not> arrayIncludes [] k"
  by (simp add: arrayIncludes_def)

lemma parseISODay_Nil [simp]: "parseISODay [] = None"
  by (simp add: parseISODay_def)

lemma MakeDate_midnight: "MakeDate d 0 = d * msPerDay"
  by (simp add: MakeDate_def)

lemma classMeetingBlocks_whole_days:
  assumes "days s = Some ds" and "startTime s = Some st" and "endTime s = Some et"
    and "classDuration st et = Some dur"
    and "scheduleStart h s = Some (d1 * msPerDay)" and "scheduleEnd h s = Some (d2 * msPerDay)"
    and "- 100000000 \<le> d1" and "d2 \<le> 100000000"
  shows "classMeetingBlocks h (Some s) =
           map (\<lambda>d. meetingBlock st dur (d * msPerDay))
             (filter (\<lambda>d. arrayIncludes (scheduleDays ds) (getDay h (d * msPerDay))) [d1..d2])"
proof (cases "scheduleDays ds = []")
  case True
  then show ?thesis
    by (simp add: classMeetingBlocks_usable [OF assms(1-4)])
next
  case False
  then show ?thesis
    by (simp add: classMeetingBlocks_usable [OF assms(1-4)] assms(5,6)
        occurrences_whole_days [OF assms(7,8)])
qed

text \<open>
  A date in the ISO form is the midnight of UTC that starts its day, on every host. In a
  zone at or east of UTC, less than a day ahead, that instant is in the same day of local
  time, and the loop sees the days of the week of the calendar.
\<close>

lemma dateOfString_iso:
  assumes "parseISODay sd = Some d"
  shows "dateOfString h sd = Some (d * msPerDay)"
  using assms parseISODay_bounds [OF assms]
  by (simp add: dateOfString_def parseISODate_def MakeDate_def TimeClip_whole)

lemma classMeetingBlocks_iso:
  assumes "days s = Some ds" and "startTime s = Some st" and "endTime s = Some et"
    and "classDuration st et = Some dur"
    and "startDate s = Some sd" and "parseISODay sd = Some d1"
    and "endDate s = Some ed" and "parseISODay ed = Some d2"
  shows "classMeetingBlocks h (Some s) =
           map (\<lambda>d. meetingBlock st dur (d * msPerDay))
             (filter (\<lambda>d. arrayIncludes (scheduleDays ds) (getDay h (d * msPerDay))) [d1..d2])"
proof -
  have "sd \<noteq> []" "ed \<noteq> []" using assms(6,8) by auto
  then have start: "scheduleStart h s = Some (d1 * msPerDay)"
    and fin: "scheduleEnd h s = Some (d2 * msPerDay)"
    using assms(5-8) by (simp_all add: scheduleStart_def scheduleEnd_def dateOfString_iso)
  have b: "- 100000000 \<le> d1" "d2 \<le> 100000000"
    using parseISODay_bounds [OF assms(6)] parseISODay_bounds [OF assms(8)] by simp_all
  show ?thesis
    using assms(1-4) start fin b by (rule classMeetingBlocks_whole_days)
qed

lemma classMeetingBlocks_iso_east:
  assumes "days s = Some ds" and "startTime s = Some st" and "endTime s = Some et"
    and "classDuration st et = Some dur"
    and "startDate s = Some sd" and "parseISODay sd = Some d1"
    and "endDate s = Some ed" and "parseISODay ed = Some d2"
    and "0 \<le> localTZA h" and "localTZA h < msPerDay"
  shows "classMeetingBlocks h (Some s) =
           map (\<lambda>d. meetingBlock st dur (MakeDate d 0)) (matchingDays (scheduleDays ds) d1 d2)"
  by (simp add: classMeetingBlocks_iso [OF assms(1-8)] getDay_east [OF assms(9,10)]
      matchingDays_def MakeDate_midnight)

text \<open>
  West of UTC that instant is still in the day before: the loop sees the day of the week
  of the day before each date.
\<close>

lemma classMeetingBlocks_iso_west:
  assumes "days s = Some ds" and "startTime s = Some st" and "endTime s = Some et"
    and "classDuration st et = Some dur"
    and "startDate s = Some sd" and "parseISODay sd = Some d1"
    and "endDate s = Some ed" and "parseISODay ed = Some d2"
    and "- msPerDay \<le> localTZA h" and "localTZA h < 0"
  shows "classMeetingBlocks h (Some s) =
           map (\<lambda>d. meetingBlock st dur (MakeDate d 0))
             (filter (\<lambda>d. arrayIncludes (scheduleDays ds) (WeekDay (MakeDate (d - 1) 0))) [d1..d2])"
  by (simp add: classMeetingBlocks_iso [OF assms(1-8)] getDay_west [OF assms(9,10)]
      MakeDate_midnight)

subsection \<open>The default dates on a host in UTC\<close>

lemma DayFromYear_ends: "DayFromYear 0 = - 719528" "DayFromYear 10000 = 2932897"
  by (simp_all add: DayFromYear_def)

lemma default_day_range:
  assumes "1970 \<le> y" and "y \<le> 9999" and "0 \<le> m" and "m \<le> 11"
  shows "DayFromYear 0 \<le> MakeDay y m 15 \<and> MakeDay y m 15 < DayFromYear 10000"
proof -
  have "m div 12 = 0" "m mod 12 = m" using assms(3,4) by simp_all
  then have md: "MakeDay y m 15 = DayFromYear y + daysBeforeMonth (isLeapYear y) m + 14"
    by (simp add: MakeDay_def Let_def)
  have "m = 0 \<or> m = 1 \<or> m = 2 \<or> m = 3 \<or> m = 4 \<or> m = 5 \<or> m = 6 \<or> m = 7 \<or> m = 8
        \<or> m = 9 \<or> m = 10 \<or> m = 11"
    using assms(3,4) by arith
  then have before: "0 \<le> daysBeforeMonth (isLeapYear y) m"
    "daysBeforeMonth (isLeapYear y) m + 14 < (if isLeapYear y then 366 else 365)"
    by (auto simp: daysBeforeMonth_def Let_def)
  have "DayFromYear 0 \<le> DayFromYear y"
    using assms(1) by (intro DayFromYear_mono) simp
  moreover have "DayFromYear (y + 1) \<le> DayFromYear 10000"
    using assms(2) by (intro DayFromYear_mono) simp
  ultimately show ?thesis
    using before DayFromYear_Suc [of y] unfolding md by (simp split: if_splits)
qed

lemma dateOfYMD_utc:
  assumes "localTZA h = 0" and "1970 \<le> y" and "y \<le> 9999" and "0 \<le> m" and "m \<le> 11"
  shows "dateOfYMD h y m 15 = Some (MakeDay y m 15 * msPerDay)"
  using default_day_range [OF assms(2-5)] assms(1,2)
  by (simp add: dateOfYMD_def UTC_def MakeDate_midnight TimeClip_whole DayFromYear_ends)

lemma boundaryDay_range:
  assumes "boundaryDay h f m = Some d"
    and "present f \<or> 1970 \<le> currentYear h \<and> currentYear h \<le> 9999"
    and "0 \<le> m" and "m \<le> 11"
  shows "DayFromYear 0 \<le> d \<and> d < DayFromYear 10000"
proof (cases "present f")
  case True
  then obtain x where "f = Some x" "x \<noteq> []"
    by (auto simp: present_def split: option.splits)
  then have "parseISODay x = Some d" using assms(1) by (simp add: boundaryDay_def)
  then show ?thesis by (rule parseISODay_range)
next
  case False
  then have "d = MakeDay (currentYear h) m 15"
    using assms(1) by (auto simp: boundaryDay_def present_def split: option.splits if_splits)
  then show ?thesis
    using default_day_range [of "currentYear h" m] assms(2-4) False by simp
qed

lemma boundary_midnight:
  assumes "localTZA h = 0" and "boundaryDay h f m = Some d"
    and "present f \<or> 1970 \<le> currentYear h \<and> currentYear h \<le> 9999"
    and "0 \<le> m" and "m \<le> 11"
  shows "(case f of
            Some x \<Rightarrow> if truthy (JsString x) then dateOfString h x
                      else dateOfYMD h (currentYear h) m 15
          | None \<Rightarrow> dateOfYMD h (currentYear h) m 15) = Some (d * msPerDay)"
proof (cases "present f")
  case True
  then obtain x where x: "f = Some x" "x \<noteq> []"
    by (auto simp: present_def split: option.splits)
  then have "parseISODay x = Some d" using assms(2) by (simp add: boundaryDay_def)
  then show ?thesis using x by (simp add: dateOfString_iso)
next
  case False
  then have d: "d = MakeDay (currentYear h) m 15"
    using assms(2) by (auto simp: boundaryDay_def present_def split: option.splits if_splits)
  have "dateOfYMD h (currentYear h) m 15 = Some (d * msPerDay)"
    unfolding d using assms(1,3-5) False by (intro dateOfYMD_utc) simp_all
  then show ?thesis
    using False by (auto simp: present_def split: option.splits)
qed

text \<open>
  On a host in UTC, the class meetings are at the midnights of the calendar days of the
  range whose day of the week is one of the schedule's.
\<close>

lemma classMeetingBlocks_utc:
  assumes "days s = Some ds" and "startTime s = Some st" and "endTime s = Some et"
    and "classDuration st et = Some dur"
    and "localTZA h = 0"
    and "present (startDate s) \<and> present (endDate s)
         \<or> 1970 \<le> currentYear h \<and> currentYear h \<le> 9999"
    and "boundaryDay h (startDate s) 0 = Some d1" and "boundaryDay h (endDate s) 4 = Some d2"
  shows "classMeetingBlocks h (Some s) =
           map (\<lambda>d. meetingBlock st dur (MakeDate d 0)) (matchingDays (scheduleDays ds) d1 d2)"
proof -
  have y1: "present (startDate s) \<or> 1970 \<le> currentYear h \<and> currentYear h \<le> 9999"
    and y2: "present (endDate s) \<or> 1970 \<le> currentYear h \<and> currentYear h \<le> 9999"
    using assms(6) by auto
  have start: "scheduleStart h s = Some (d1 * msPerDay)"
    unfolding scheduleStart_def using assms(5,7) y1 by (rule boundary_midnight) simp_all
  have fin: "scheduleEnd h s = Some (d2 * msPerDay)"
    unfolding scheduleEnd_def using assms(5,8) y2 by (rule boundary_midnight) simp_all
  have "- 100000000 \<le> d1" "d2 \<le> 100000000"
    using boundaryDay_range [OF assms(7) y1] boundaryDay_range [OF assms(8) y2]
    by (simp_all add: DayFromYear_ends)
  then have "classMeetingBlocks h (Some s) =
           map (\<lambda>d. meetingBlock st dur (d * msPerDay))
             (filter (\<lambda>d. arrayIncludes (scheduleDays ds) (getDay h (d * msPerDay))) [d1..d2])"
    using assms(1-4) start fin by (intro classMeetingBlocks_whole_days)
  moreover have "getDay h (d * msPerDay) = WeekDay (MakeDate d 0)" for d
    using assms(5) by (intro getDay_east) (simp_all add: msPerDay_def)
  ultimately show ?thesis
    by (simp add: matchingDays_def MakeDate_midnight)
qed

lemma matchingDays_first:
  assumes "d1 \<le> d2" and "arrayIncludes sd (WeekDay (MakeDate d1 0))"
  shows "matchingDays sd d1 d2 = d1 # matchingDays sd (d1 + 1) d2"
  using assms by (simp add: matchingDays_def upto_rec1 [of d1 d2])

subsection \<open>The examples evaluated\<close>

lemmas number_defs = stringToNumber_def trim_def isWhiteSpace_def nonDecimalIntegerLiteral_def
      strDecimalLiteral_def strUnsignedDecimalLiteral_def mantissa_def exponentPart_def
      digits_def digitValue_def pow10_def

lemmas calendar_defs = msPerDay_def YearFromTime_def yearFromDay_def Day_def DayFromYear_def
  MonthFromTime_def DateFromTime_def DayWithinYear_def TimeWithinDay_def daysBeforeMonth_def
  isLeapYear_def MakeDay_def MakeDate_def daysInMonth_def

lemmas iso_defs = isoDatePart_def toISOString_def yearString_def pad2_def pad3_def pad4_def
  pad6_def digitChar_def

text \<open>
  One tenth is not a double, and the integers above \<open>2^53\<close> are doubles only when they are
  even: \<open>2^53 + 1\<close> and \<open>2^53 + 17\<close> lie half way between two doubles and go to the one
  with the even significand.
\<close>

lemma roundDouble_examples:
  "roundDouble (3 / 2) = Fin (3 / 2)"
  "roundDouble (61 / 2) = Fin (61 / 2)"
  "roundDouble (1261 / 2) = Fin (1261 / 2)"
  "roundDouble (1 / 10) = Fin (3602879701896397 / 36028797018963968)"
  "roundDouble 9007199254740992 = Fin 9007199254740992"
  "roundDouble 9007199254740993 = Fin 9007199254740992"
  "roundDouble 9007199254741008 = Fin 9007199254741008"
  "roundDouble 9007199254741009 = Fin 9007199254741008"
proof -
  show "roundDouble (3 / 2) = Fin (3 / 2)"
    by (simp add: roundDouble_positive [where e = 0] rounding_defs)
  show "roundDouble (61 / 2) = Fin (61 / 2)"
    by (simp add: roundDouble_positive [where e = 4] rounding_defs)
  show "roundDouble (1261 / 2) = Fin (1261 / 2)"
    by (simp add: roundDouble_positive [where e = 9] rounding_defs)
  have "(2::rat) powi (- 4) \<le> 1 / 10" "(1 / 10 :: rat) < 2 powi (- 4 + 1)"
    by (simp_all add: power_int_def power_divide)
  then show "roundDouble (1 / 10) = Fin (3602879701896397 / 36028797018963968)"
    by (simp add: roundDouble_positive [where e = "- 4"] rounding_defs)
  show "roundDouble 9007199254740992 = Fin 9007199254740992"
    "roundDouble 9007199254740993 = Fin 9007199254740992"
    "roundDouble 9007199254741008 = Fin 9007199254741008"
    "roundDouble 9007199254741009 = Fin 9007199254741008"
    by (simp_all add: roundDouble_positive [where e = 53] rounding_defs)
qed

lemma stringToNumber_examples:
  "stringToNumber ''10'' = Fin 10"
  "stringToNumber '' 07 '' = Fin 7"
  "stringToNumber '''' = Fin 0"
  "stringToNumber ''-1'' = Fin (- 1)"
  "stringToNumber ''1.5'' = Fin (3 / 2)"
  "stringToNumber ''0.1'' = Fin (3602879701896397 / 36028797018963968)"
  "stringToNumber ''9007199254740993'' = Fin 9007199254740992"
  "stringToNumber ''2e1'' = Fin 20"
  "stringToNumber ''0x1e'' = Fin 30"
  "stringToNumber ''Infinity'' = PosInf"
  "stringToNumber ''abc'' = NaN"
  "stringToNumber ''1_0'' = NaN"
  "stringToNumber ''.'' = NaN"
  "stringToNumber ''5.'' = Fin 5"
  "stringToNumber ''- 5'' = NaN"
  by (simp_all add: number_defs roundDouble_Ints roundDouble_examples)

lemma hourMinute_examples:
  "hourMinute ''10:00'' = (JsNumber (Fin 10), JsNumber (Fin 0))"
  "hourMinute ''11:00'' = (JsNumber (Fin 11), JsNumber (Fin 0))"
  "hourMinute ''23:30'' = (JsNumber (Fin 23), JsNumber (Fin 30))"
  "hourMinute ''00:30'' = (JsNumber (Fin 0), JsNumber (Fin 30))"
  "hourMinute ''09:00'' = (JsNumber (Fin 9), JsNumber (Fin 0))"
  "hourMinute ''09:05'' = (JsNumber (Fin 9), JsNumber (Fin 5))"
  "hourMinute ''08:00'' = (JsNumber (Fin 8), JsNumber (Fin 0))"
  "hourMinute ''14:00'' = (JsNumber (Fin 14), JsNumber (Fin 0))"
  "hourMinute ''-1:00'' = (JsNumber (Fin (- 1)), JsNumber (Fin 0))"
  "hourMinute ''10am'' = (JsNumber NaN, JsUndefined)"
  "hourMinute ''1000'' = (JsNumber (Fin 1000), JsUndefined)"
  "hourMinute ''Infinity:00'' = (JsNumber PosInf, JsNumber (Fin 0))"
  "hourMinute ''10:30.5'' = (JsNumber (Fin 10), JsNumber (Fin (61 / 2)))"
  "hourMinute ''0:9007199254740992'' = (JsNumber (Fin 0), JsNumber (Fin 9007199254740992))"
  "hourMinute ''0:9007199254741009'' = (JsNumber (Fin 0), JsNumber (Fin 9007199254741008))"
  by (simp_all add: hourMinute_def element_def number_defs roundDouble_Ints
      roundDouble_examples)

lemma specDuration_examples:
  "specDuration 10 0 11 0 = 60" "specDuration 23 30 0 30 = 60" "specDuration 9 0 9 5 = 15"
  "specDuration 8 0 14 0 = 240" "specDuration (- 1) 0 10 0 = 240"
  "specDuration 0 9007199254740992 0 9007199254741009 = 17"
  by (simp_all add: specDuration_def)

lemma classDuration_examples:
  "classDuration ''10:00'' ''11:00'' = Some (Fin 60)"
  "classDuration ''08:00'' ''14:00'' = Some (Fin 240)"
  "classDuration ''-1:00'' ''10:00'' = Some (Fin 240)"
  using classDuration_exact [OF hourMinute_examples(1,2)]
    classDuration_exact [OF hourMinute_examples(7,8)]
    classDuration_exact [OF hourMinute_examples(9,1)]
  by (simp_all add: specDuration_examples)

text \<open>
  The hour 1e308 is finite, and 60 times it is not: the product overflows to an infinity.
\<close>

lemma overflow_examples:
  "stringToNumber ''1e308'' = Fin double1e308"
  "jsMul (Fin double1e308) (Fin 60) = PosInf"
  "hourMinute ''1e308:00'' = (JsNumber (Fin double1e308), JsNumber (Fin 0))"
proof -
  have "(2::rat) powi 1023 \<le> 10 ^ 308" "(10 ^ 308 :: rat) < 2 powi (1023 + 1)"
    by (simp_all add: power_int_def)
  then show a: "stringToNumber ''1e308'' = Fin double1e308"
    by (simp add: number_defs roundDouble_positive [where e = 1023] rounding_defs
        double1e308_def)
  show "jsMul (Fin double1e308) (Fin 60) = PosInf"
    by (simp add: roundDouble_positive [where e = 1029] rounding_defs double1e308_def)
  have z: "stringToNumber ''00'' = Fin 0"
    by (simp add: number_defs roundDouble_Ints)
  show "hourMinute ''1e308:00'' = (JsNumber (Fin double1e308), JsNumber (Fin 0))"
    by (simp add: hourMinute_def element_def a z)
qed

text \<open>
  Two times with an infinite hour give the duration \<open>NaN\<close>, and so do two hours of 1e308:
  both counts of minutes are the same infinity. Two counts of minutes above \<open>2^53\<close> give a
  duration that is not their difference. A minute with a fraction gives a duration with a
  fraction.
\<close>

lemma classDuration_rounded:
  "classDuration ''Infinity:00'' ''Infinity:00'' = Some NaN"
  "classDuration ''1e308:00'' ''1e308:00'' = Some NaN"
  "classDuration ''0:9007199254740992'' ''0:9007199254741009'' = Some (Fin 16)"
  "classDuration ''10:00'' ''10:30.5'' = Some (Fin (61 / 2))"
proof -
  show "classDuration ''Infinity:00'' ''Infinity:00'' = Some NaN"
    "classDuration ''0:9007199254740992'' ''0:9007199254741009'' = Some (Fin 16)"
    "classDuration ''10:00'' ''10:30.5'' = Some (Fin (61 / 2))"
    by (simp_all add: classDuration_def hourMinute_examples isNaN_def jsSub_def jsGt_def
        MIN_DURATION_def MAX_DURATION_value roundDouble_Ints roundDouble_examples)
  show "classDuration ''1e308:00'' ''1e308:00'' = Some NaN"
    by (simp add: classDuration_def overflow_examples isNaN_def jsSub_def jsGt_def
        MIN_DURATION_def MAX_DURATION_value del: jsMul.simps)
qed

lemma scheduleDays_examples:
  "scheduleDays [''Monday'', ''Wednesday''] = [Some (DayNumber 1), Some (DayNumber 3)]"
  "scheduleDays [''Wednesday'', ''Thursday''] = [Some (DayNumber 3), Some (DayNumber 4)]"
  "scheduleDays [''Monday''] = [Some (DayNumber 1)]"
  "scheduleDays [''Funday''] = []"
  by (simp_all add: scheduleDays_def resolveDay_def dayMapGet_def dayMap_def trim_def
      isWhiteSpace_def substring03_def objectPrototypeKeys_def)

lemma parseISODay_examples:
  "parseISODay ''2025-01-13'' = Some 20101" "parseISODay ''2025-01-24'' = Some 20112"
  by (simp_all add: parseISODay_def digits_def digitValue_def calendar_defs)

lemma default_day_examples:
  "MakeDay 2025 0 15 = 20103" "MakeDay 2025 4 15 = 20223"
  "MakeDay 2026 0 15 = 20468" "MakeDay 2026 4 15 = 20588"
  by (simp_all add: calendar_defs)

lemma WeekDay_examples:
  "WeekDay (MakeDate 20103 0) = 3" "WeekDay (MakeDate 20468 0) = 4"
  by (simp_all add: WeekDay_def Day_def MakeDate_def msPerDay_def)

lemma matching_examples:
  "matchingDays [Some (DayNumber 1), Some (DayNumber 3)] 20101 20112
     = [20101, 20103, 20108, 20110]"
  "matchingDays [Some (DayNumber 3), Some (DayNumber 4)] 20103 20112
     = [20103, 20104, 20110, 20111]"
  "matchingDays [Some (DayNumber 1)] 20101 20101 = [20101]"
  "filter (\<lambda>d. arrayIncludes [Some (DayNumber 1), Some (DayNumber 3)]
                 (WeekDay (MakeDate (d - 1) 0))) [20101..20112]
     = [20102, 20104, 20109, 20111]"
  by (simp_all add: matchingDays_def upto.simps arrayIncludes_def WeekDay_def Day_def
      MakeDate_def msPerDay_def)

lemma isoDatePart_examples:
  "isoDatePart (MakeDate 20101 0) = JsString ''2025-01-13''"
  "isoDatePart (MakeDate 20102 0) = JsString ''2025-01-14''"
  "isoDatePart (MakeDate 20103 0) = JsString ''2025-01-15''"
  "isoDatePart (MakeDate 20104 0) = JsString ''2025-01-16''"
  "isoDatePart (MakeDate 20108 0) = JsString ''2025-01-20''"
  "isoDatePart (MakeDate 20109 0) = JsString ''2025-01-21''"
  "isoDatePart (MakeDate 20110 0) = JsString ''2025-01-22''"
  "isoDatePart (MakeDate 20111 0) = JsString ''2025-01-23''"
  "isoDatePart (MakeDate 20468 0) = JsString ''2026-01-15''"
  by (simp_all add: iso_defs calendar_defs)

text \<open>
  The scenario of the specification on a host at or east of UTC, and on a host west of UTC,
  where every block is dated one day late: a Monday class gets the dates of Tuesdays.
\<close>

lemma scenario_blocks:
  assumes "0 \<le> localTZA h" and "localTZA h < msPerDay"
  shows "classMeetingBlocks h (Some scenario) =
     map (\<lambda>date. \<lparr>blockDate = JsString date, blockStartTime = JsString ''10:00'',
                  durationMinutes = JsNumber (Fin 60), isClassMeeting = JsBoolean True,
                  assignmentIndex = JsUndefined\<rparr>)
       [''2025-01-13'', ''2025-01-15'', ''2025-01-20'', ''2025-01-22'']"
proof -
  have "classMeetingBlocks h (Some scenario) =
          map (\<lambda>d. meetingBlock ''10:00'' (Fin 60) (MakeDate d 0))
            (matchingDays (scheduleDays [''Monday'', ''Wednesday'']) 20101 20112)"
    using assms
    by (intro classMeetingBlocks_iso_east [where sd = "''2025-01-13''"
          and ed = "''2025-01-24''" and et = "''11:00''"])
      (simp_all add: scenario_def parseISODay_examples classDuration_examples)
  then show ?thesis
    unfolding scheduleDays_examples matching_examples
    by (simp add: isoDatePart_examples meetingBlock_def)
qed

lemma scenario_blocks_west:
  assumes "- msPerDay \<le> localTZA h" and "localTZA h < 0"
  shows "classMeetingBlocks h (Some scenario) =
     map (\<lambda>date. \<lparr>blockDate = JsString date, blockStartTime = JsString ''10:00'',
                  durationMinutes = JsNumber (Fin 60), isClassMeeting = JsBoolean True,
                  assignmentIndex = JsUndefined\<rparr>)
       [''2025-01-14'', ''2025-01-16'', ''2025-01-21'', ''2025-01-23'']"
proof -
  have "classMeetingBlocks h (Some scenario) =
          map (\<lambda>d. meetingBlock ''10:00'' (Fin 60) (MakeDate d 0))
            (filter (\<lambda>d. arrayIncludes (scheduleDays [''Monday'', ''Wednesday''])
                           (WeekDay (MakeDate (d - 1) 0))) [20101..20112])"
    using assms
    by (intro classMeetingBlocks_iso_west [where sd = "''2025-01-13''"
          and ed = "''2025-01-24''" and et = "''11:00''"])
      (simp_all add: scenario_def parseISODay_examples classDuration_examples)
  then show ?thesis
    unfolding scheduleDays_examples matching_examples
    by (simp add: isoDatePart_examples meetingBlock_def)
qed

lemma mondayClass_blocks:
  assumes "classDuration st et = Some dur" and "0 \<le> localTZA h" and "localTZA h < msPerDay"
  shows "classMeetingBlocks h (Some (mondayClass [''Monday''] st et)) =
     [\<lparr>blockDate = JsString ''2025-01-13'', blockStartTime = JsString st,
       durationMinutes = JsNumber dur, isClassMeeting = JsBoolean True,
       assignmentIndex = JsUndefined\<rparr>]"
proof -
  have "classMeetingBlocks h (Some (mondayClass [''Monday''] st et)) =
          map (\<lambda>d. meetingBlock st dur (MakeDate d 0))
            (matchingDays (scheduleDays [''Monday'']) 20101 20101)"
    using assms
    by (intro classMeetingBlocks_iso_east [where sd = "''2025-01-13''"
          and ed = "''2025-01-13''" and et = et])
      (simp_all add: mondayClass_def parseISODay_examples)
  then show ?thesis
    unfolding scheduleDays_examples matching_examples
    by (simp add: isoDatePart_examples meetingBlock_def)
qed

lemma isoOnlyHost_zone: "0 \<le> localTZA isoOnlyHost" "localTZA isoOnlyHost < msPerDay"
  by (simp_all add: isoOnlyHost_def msPerDay_def)

subsection \<open>Day names\<close>

lemma trim_white:
  assumes "\<forall>c \<in> set pre. isWhiteSpace c" and "\<forall>c \<in> set post. isWhiteSpace c"
  shows "trim (pre @ tok @ post) = trim tok"
proof -
  have a: "dropWhile isWhiteSpace (pre @ tok @ post) = dropWhile isWhiteSpace (tok @ post)"
    using assms(1) by (intro dropWhile_append2) simp
  show ?thesis
  proof (cases "\<forall>c \<in> set tok. isWhiteSpace c")
    case True
    then have e: "dropWhile isWhiteSpace (tok @ post) = []" "dropWhile isWhiteSpace tok = []"
      using assms(2) by auto
    show ?thesis unfolding trim_def a e ..
  next
    case False
    then obtain x where "x \<in> set tok" "\<not> isWhiteSpace x" by blast
    then have "dropWhile isWhiteSpace (tok @ post) = dropWhile isWhiteSpace tok @ post"
      by (simp add: dropWhile_append1)
    then have r: "rev (dropWhile isWhiteSpace (tok @ post))
                 = rev post @ rev (dropWhile isWhiteSpace tok)"
      by simp
    have "dropWhile isWhiteSpace (rev post @ rev (dropWhile isWhiteSpace tok))
            = dropWhile isWhiteSpace (rev (dropWhile isWhiteSpace tok))"
      using assms(2) by (intro dropWhile_append2) simp
    then have e: "dropWhile isWhiteSpace (rev (dropWhile isWhiteSpace (tok @ post)))
                 = dropWhile isWhiteSpace (rev (dropWhile isWhiteSpace tok))"
      unfolding r .
    show ?thesis unfolding trim_def a e ..
  qed
qed

lemma trim_prefix:
  assumes "p \<noteq> []" and "\<not> isWhiteSpace (hd p)" and "\<not> isWhiteSpace (last p)"
  shows "\<exists>r'. trim (p @ r) = p @ r'"
proof -
  have a: "dropWhile isWhiteSpace (p @ r) = p @ r"
    using assms(1,2) by (cases p) simp_all
  have "last p \<in> set (rev p)" using assms(1) by simp
  then have "dropWhile isWhiteSpace (rev r @ rev p) = dropWhile isWhiteSpace (rev r) @ rev p
     \<or> dropWhile isWhiteSpace (rev r @ rev p) = rev p"
  proof (cases "\<forall>c \<in> set (rev r). isWhiteSpace c")
    case True
    have "dropWhile isWhiteSpace (rev p) = rev p"
      using assms(1,3) by (cases "rev p") (simp_all add: last_rev hd_rev)
    moreover have "dropWhile isWhiteSpace (rev r @ rev p) = dropWhile isWhiteSpace (rev p)"
      using True by (intro dropWhile_append2) simp
    ultimately show ?thesis by simp
  next
    case False
    then obtain x where "x \<in> set (rev r)" "\<not> isWhiteSpace x" by blast
    then show ?thesis by (simp add: dropWhile_append1)
  qed
  then show ?thesis
    unfolding trim_def a rev_append by auto
qed


lemma inherited_not_abbreviated:
  "k \<in> set objectPrototypeKeys \<Longrightarrow> map_of dayMap (take 3 k) = None"
  by (auto simp: objectPrototypeKeys_def dayMap_def)


lemma resolveDay_key:
  "map_of dayMap (trim tok) = Some n \<Longrightarrow> resolveDay tok = Some (DayNumber n)"
  by (simp add: resolveDay_def dayMapGet_def)

lemma resolveDay_prefix:
  assumes "map_of dayMap (trim tok) = None" and "map_of dayMap (take 3 (trim tok)) = Some n"
  shows "resolveDay tok = Some (DayNumber n)"
proof -
  have "trim tok \<notin> set objectPrototypeKeys"
    using inherited_not_abbreviated [of "trim tok"] assms(2) by auto
  then show ?thesis
    using assms by (simp add: resolveDay_def dayMapGet_def substring03_def)
qed


lemma dayMap_prefixed:
  "map_of dayMap (''Mon'' @ r) = Some 1 \<or> map_of dayMap (''Mon'' @ r) = None"
  "map_of dayMap (''Tue'' @ r) = Some 2 \<or> map_of dayMap (''Tue'' @ r) = None"
  "map_of dayMap (''Wed'' @ r) = Some 3 \<or> map_of dayMap (''Wed'' @ r) = None"
  "map_of dayMap (''Thu'' @ r) = Some 4 \<or> map_of dayMap (''Thu'' @ r) = None"
  "map_of dayMap (''Fri'' @ r) = Some 5 \<or> map_of dayMap (''Fri'' @ r) = None"
  "map_of dayMap (''Sat'' @ r) = Some 6 \<or> map_of dayMap (''Sat'' @ r) = None"
  "map_of dayMap (''Sun'' @ r) = Some 0 \<or> map_of dayMap (''Sun'' @ r) = None"
  by (simp_all add: dayMap_def)

lemma dayMap_abbreviations:
  "map_of dayMap ''Mon'' = Some 1" "map_of dayMap ''Tue'' = Some 2"
  "map_of dayMap ''Wed'' = Some 3" "map_of dayMap ''Thu'' = Some 4"
  "map_of dayMap ''Fri'' = Some 5" "map_of dayMap ''Sat'' = Some 6"
  "map_of dayMap ''Sun'' = Some 0"
  by (simp_all add: dayMap_def)

lemma resolveDay_starts_with:
  assumes "map_of dayMap p = Some n" and "length p = 3"
    and "\<not> isWhiteSpace (hd p)" and "\<not> isWhiteSpace (last p)"
    and "\<And>r. map_of dayMap (p @ r) = Some n \<or> map_of dayMap (p @ r) = None"
  shows "resolveDay (p @ rest) = Some (DayNumber n)"
proof -
  have "p \<noteq> []" using assms(2) by auto
  then obtain r' where t: "trim (p @ rest) = p @ r'"
    using trim_prefix [of p rest] assms(3,4) by blast
  have "take 3 (p @ r') = p" using assms(2) by simp
  then show ?thesis
    using assms(5) [of r'] assms(1) resolveDay_key [of "p @ rest" n]
      resolveDay_prefix [of "p @ rest" n]
    by (auto simp: t)
qed

lemma resolveDay_abbreviated:
  "resolveDay (''Mon'' @ rest) = Some (DayNumber 1)"
  "resolveDay (''Tue'' @ rest) = Some (DayNumber 2)"
  "resolveDay (''Wed'' @ rest) = Some (DayNumber 3)"
  "resolveDay (''Thu'' @ rest) = Some (DayNumber 4)"
  "resolveDay (''Fri'' @ rest) = Some (DayNumber 5)"
  "resolveDay (''Sat'' @ rest) = Some (DayNumber 6)"
  "resolveDay (''Sun'' @ rest) = Some (DayNumber 0)"
  using resolveDay_starts_with [OF dayMap_abbreviations(1) _ _ _ dayMap_prefixed(1), of rest]
    resolveDay_starts_with [OF dayMap_abbreviations(2) _ _ _ dayMap_prefixed(2), of rest]
    resolveDay_starts_with [OF dayMap_abbreviations(3) _ _ _ dayMap_prefixed(3), of rest]
    resolveDay_starts_with [OF dayMap_abbreviations(4) _ _ _ dayMap_prefixed(4), of rest]
    resolveDay_starts_with [OF dayMap_abbreviations(5) _ _ _ dayMap_prefixed(5), of rest]
    resolveDay_starts_with [OF dayMap_abbreviations(6) _ _ _ dayMap_prefixed(6), of rest]
    resolveDay_starts_with [OF dayMap_abbreviations(7) _ _ _ dayMap_prefixed(7), of rest]
  by (simp_all add: isWhiteSpace_def)

text \<open>The list of days keeps the order of the tokens, one entry for each token that resolves.\<close>

lemma scheduleDays_append: "scheduleDays (xs @ ys) = scheduleDays xs @ scheduleDays ys"
  by (simp add: scheduleDays_def)

lemma scheduleDays_token:
  "scheduleDays (xs @ tok # ys)
     = scheduleDays xs @ (case resolveDay tok of None \<Rightarrow> [] | Some v \<Rightarrow> [Some v]) @ scheduleDays ys"
  by (simp add: scheduleDays_def split: option.splits)

section \<open>The claims\<close>

subsection \<open>C1: a planned session with an index that cannot be resolved\<close>

text \<open>
  C1 as stated: a planned session is still emitted, with a null assignment link, when its
  index is negative, at least the length of \<open>insertedAssignments\<close>, or when
  \<open>insertedAssignments\<close> is empty. The last case fails: with no inserted assignment the
  handler adds no assignment study block at all, so the session below is dropped.
\<close>

theorem C1_counterexample:
  "allStudyBlocks userId1 classId1 [] [plannedSession ''2025-02-10'' 45 0] [] = []"
  by (simp add: allStudyBlocks_def)

text \<open>
  C1 amended: when \<open>insertedAssignments\<close> is not empty, every planned session is emitted
  (the output has one row per class meeting and one per session), and the row of a session
  whose index is a number below 0 or at least the length of \<open>insertedAssignments\<close> carries the
  session's date, time and duration with a null assignment link. When \<open>insertedAssignments\<close>
  is empty, the output holds the class meetings only.
\<close>

theorem C1_unresolvable_index:
  "(insertedAssignments \<noteq> [] \<and> i < length sessions
      \<and> assignmentIndex (sessions ! i) = JsNumber (Fin r)
      \<and> (r < 0 \<or> of_nat (length insertedAssignments) \<le> r)
    \<longrightarrow> length (allStudyBlocks u c meetings sessions insertedAssignments)
          = length meetings + length sessions
        \<and> allStudyBlocks u c meetings sessions insertedAssignments ! (length meetings + i)
          = \<lparr>user_id = u, class_id = c, assignment_id = JsNull,
             block_date = blockDate (sessions ! i), start_time = blockStartTime (sessions ! i),
             duration_minutes = durationMinutes (sessions ! i)\<rparr>)
   \<and> (insertedAssignments = []
    \<longrightarrow> allStudyBlocks u c meetings sessions insertedAssignments
          = map (classMeetingRow u c) meetings)"
  by (auto simp: allStudyBlocks_append nth_append assignmentRowOf_def assignmentLink_def
      arrayIndex_out_of_range)

theorem C1_witness:
  "length (allStudyBlocks userId1 classId1 []
             [plannedSession ''2025-02-10'' 45 (- 1)] [assignment1]) = 1
   \<and> allStudyBlocks userId1 classId1 [] [plannedSession ''2025-02-10'' 45 (- 1)] [assignment1] ! 0
       = \<lparr>user_id = userId1, class_id = classId1, assignment_id = JsNull,
          block_date = JsString ''2025-02-10'', start_time = JsString ''18:00'',
          duration_minutes = JsNumber (Fin 45)\<rparr>
   \<and> allStudyBlocks userId1 classId1 [] [plannedSession ''2025-02-10'' 45 7] [assignment1] ! 0
       = \<lparr>user_id = userId1, class_id = classId1, assignment_id = JsNull,
          block_date = JsString ''2025-02-10'', start_time = JsString ''18:00'',
          duration_minutes = JsNumber (Fin 45)\<rparr>
   \<and> allStudyBlocks userId1 classId1 [] [plannedSession ''2025-02-10'' 45 (- 1)] [] = []"
  using C1_unresolvable_index [of "[assignment1]" 0 "[plannedSession ''2025-02-10'' 45 (- 1)]" "- 1"
      userId1 classId1 "[]"]
    C1_unresolvable_index [of "[assignment1]" 0 "[plannedSession ''2025-02-10'' 45 7]" 7
      userId1 classId1 "[]"]
    C1_unresolvable_index [of "[]" 0 "[plannedSession ''2025-02-10'' 45 (- 1)]" "- 1"
      userId1 classId1 "[]"]
  by (simp add: plannedSession_def)

subsection \<open>C3: the length of the combined list\<close>

text \<open>
  C3 as stated: the output has one row per class meeting and per planned session, less the
  sessions whose date cannot be parsed. The handler never parses the date of a planned
  session: the session below, whose date is the text \<^verbatim>\<open>TBD\<close>, is emitted.
\<close>

theorem C3_counterexample:
  "\<not> dateParses isoOnlyHost (blockDate (plannedSession ''TBD'' 45 0))
   \<and> length (allStudyBlocks userId1 classId1 [] [plannedSession ''TBD'' 45 0] [assignment1])
       \<noteq> length ([] :: studyBlock list) + length [plannedSession ''TBD'' 45 0]
           - length (filter (\<lambda>b. \<not> dateParses isoOnlyHost (blockDate b))
               [plannedSession ''TBD'' 45 0])"
  by (simp add: allStudyBlocks_def dateParses_def dateOfValue_def plannedSession_def
      dateOfString_def parseISODate_def parseISODay_def isoOnlyHost_def)

text \<open>
  C3 amended: the output has one row per class meeting, and one more per planned session
  when \<open>insertedAssignments\<close> is not empty; no session is dropped for its date. The
  combination is a total function of lists of blocks: no entry makes it fail.
\<close>

theorem C3_length:
  "length (allStudyBlocks u c meetings sessions insertedAssignments)
     = length meetings + (if insertedAssignments = [] then 0 else length sessions)"
  by (simp add: allStudyBlocks_append)

subsection \<open>C9: the combined list is a concatenation\<close>

text \<open>
  C9 as stated: the output is the class meetings followed by the planned sessions. It is
  not when \<open>insertedAssignments\<close> is empty: the sessions are left out.
\<close>

theorem C9_counterexample:
  "allStudyBlocks userId1 classId1 [] [plannedSession ''2025-02-10'' 45 0] []
     \<noteq> map (classMeetingRow userId1 classId1) []
       @ map (assignmentRowOf userId1 classId1 []) [plannedSession ''2025-02-10'' 45 0]"
  by (simp add: allStudyBlocks_def)

text \<open>
  C9 amended: the output is the rows of the class meetings in their order, followed, when
  \<open>insertedAssignments\<close> is not empty, by the rows of the planned sessions in their order;
  nothing is sorted or removed. The row of a class meeting is the meeting's date, start time
  and duration with the user, the class and a null assignment link; the row of a session
  carries the session's date, start time and duration.
\<close>

theorem C9_concatenation:
  "allStudyBlocks u c meetings sessions insertedAssignments
     = map (classMeetingRow u c) meetings
       @ (if insertedAssignments = [] then []
          else map (assignmentRowOf u c insertedAssignments) sessions)
   \<and> classMeetingRow u c m
     = \<lparr>user_id = u, class_id = c, assignment_id = JsNull, block_date = blockDate m,
        start_time = blockStartTime m, duration_minutes = durationMinutes m\<rparr>
   \<and> block_date (assignmentRowOf u c insertedAssignments p) = blockDate p
   \<and> start_time (assignmentRowOf u c insertedAssignments p) = blockStartTime p
   \<and> duration_minutes (assignmentRowOf u c insertedAssignments p) = durationMinutes p"
  by (simp add: allStudyBlocks_append classMeetingRow_def assignmentRowOf_def)

subsection \<open>C2: the durations in the combined list\<close>

text \<open>
  C2 as stated: every block of the combined list has a duration that is an integer from 15
  to 240. The duration of an assignment session is the planner's, copied as it is: the
  session below keeps its 500 minutes. The duration of a class meeting is \<open>NaN\<close> when the
  two counts of minutes are the same infinity, as for the times \<^verbatim>\<open>Infinity:00\<close>: the
  handler raises what is below 15 and caps what is above 240, and \<open>NaN\<close> is neither. And it
  is not an integer when a minute is not: from \<^verbatim>\<open>10:00\<close> to \<^verbatim>\<open>10:30.5\<close> it is 30.5.
\<close>

theorem C2_counterexample:
  "duration_minutes
     (allStudyBlocks userId1 classId1 [] [plannedSession ''2025-02-10'' 500 0] [assignment1] ! 0)
     = JsNumber (Fin 500)
   \<and> map duration_minutes
       (allStudyBlocks userId1 classId1
          (classMeetingBlocks isoOnlyHost
             (Some (mondayClass [''Monday''] ''Infinity:00'' ''Infinity:00''))) [] [])
     = [JsNumber NaN]
   \<and> map duration_minutes
       (allStudyBlocks userId1 classId1
          (classMeetingBlocks isoOnlyHost
             (Some (mondayClass [''Monday''] ''10:00'' ''10:30.5''))) [] [])
     = [JsNumber (Fin (61 / 2))]
   \<and> (61 / 2 :: rat) \<notin> \<int>"
proof -
  have "(61 / 2 :: rat) \<notin> \<int>"
  proof
    assume "(61 / 2 :: rat) \<in> \<int>"
    then obtain k :: int where "(61 / 2 :: rat) = of_int k" by (auto elim: Ints_cases)
    then have "(of_int 61 :: rat) = of_int (2 * k)" by simp
    then have "61 = 2 * k" by (simp only: of_int_eq_iff)
    then show False by presburger
  qed
  then show ?thesis
    by (simp add: allStudyBlocks_def assignmentRowOf_def plannedSession_def classMeetingRow_def
        mondayClass_blocks [OF classDuration_rounded(1) isoOnlyHost_zone]
        mondayClass_blocks [OF classDuration_rounded(4) isoOnlyHost_zone])
qed

text \<open>
  C2 amended: in the combined list, the row of every class meeting has a duration from 15
  to 240, or \<open>NaN\<close>. It is from 15 to 240 whenever the hours and minutes of both times are
  finite numbers of magnitude up to \<open>2^1000\<close> (about 1e301), and then it is an integer when
  they are integers of magnitude up to \<open>10^13\<close>. The row of an assignment session has the
  duration the planner gave, unchanged, whatever it is.
\<close>

theorem C2_durations:
  assumes "startTime s = Some st" and "endTime s = Some et"
    and "meetings = classMeetingBlocks h (Some s)"
    and "rows = allStudyBlocks u c meetings sessions insertedAssignments"
  shows "(\<forall>i < length meetings.
            duration_minutes (rows ! i) = JsNumber NaN
            \<or> (\<exists>r. duration_minutes (rows ! i) = JsNumber (Fin r) \<and> 15 \<le> r \<and> r \<le> 240))
    \<and> (hourMinute st = (JsNumber (Fin sh), JsNumber (Fin sm))
         \<and> hourMinute et = (JsNumber (Fin eh), JsNumber (Fin em))
         \<and> (\<forall>x \<in> {sh, sm, eh, em}. \<bar>x\<bar> \<le> 2 ^ 1000)
        \<longrightarrow> (\<forall>i < length meetings.
               \<exists>r. duration_minutes (rows ! i) = JsNumber (Fin r) \<and> 15 \<le> r \<and> r \<le> 240
                  \<and> ((\<forall>x \<in> {sh, sm, eh, em}. x \<in> \<int> \<and> \<bar>x\<bar> \<le> 10 ^ 13) \<longrightarrow> r \<in> \<int>)))
    \<and> (\<forall>j < length sessions. insertedAssignments \<noteq> []
          \<longrightarrow> duration_minutes (rows ! (length meetings + j)) = durationMinutes (sessions ! j))"
proof -
  have row: "\<exists>dur. classDuration st et = Some dur \<and> duration_minutes (rows ! i) = JsNumber dur"
    if i: "i < length meetings" for i
  proof -
    have "meetings ! i \<in> set (classMeetingBlocks h (Some s))"
      using i assms(3) by simp
    then obtain dur t where "classDuration st et = Some dur"
      "meetings ! i = meetingBlock st dur t"
      using classMeetingBlocks_block assms(1,2) by blast
    then show ?thesis
      using i by (simp add: assms(4) allStudyBlocks_append nth_append classMeetingRow_def
          meetingBlock_def)
  qed
  show ?thesis
  proof (intro conjI allI impI)
    fix i assume "i < length meetings"
    then obtain dur where "classDuration st et = Some dur"
      "duration_minutes (rows ! i) = JsNumber dur"
      using row by blast
    then show "duration_minutes (rows ! i) = JsNumber NaN
            \<or> (\<exists>r. duration_minutes (rows ! i) = JsNumber (Fin r) \<and> 15 \<le> r \<and> r \<le> 240)"
      using classDuration_range [of st et dur] by auto
  next
    fix i
    assume f: "hourMinute st = (JsNumber (Fin sh), JsNumber (Fin sm))
         \<and> hourMinute et = (JsNumber (Fin eh), JsNumber (Fin em))
         \<and> (\<forall>x \<in> {sh, sm, eh, em}. \<bar>x\<bar> \<le> 2 ^ 1000)"
      and "i < length meetings"
    then obtain dur where dur: "classDuration st et = Some dur"
      "duration_minutes (rows ! i) = JsNumber dur"
      using row by blast
    obtain r where r: "classDuration st et = Some (Fin r)" "15 \<le> r" "r \<le> 240"
      using classDuration_finite [of st sh sm et eh em] f by auto
    have "r \<in> \<int>" if "\<forall>x \<in> {sh, sm, eh, em}. x \<in> \<int> \<and> \<bar>x\<bar> \<le> 10 ^ 13"
    proof -
      have "classDuration st et = Some (Fin (specDuration sh sm eh em))"
        using f that by (intro classDuration_exact) simp_all
      then show ?thesis
        using r(1) that specDuration_Ints [of sh sm eh em] by simp
    qed
    then show "\<exists>r. duration_minutes (rows ! i) = JsNumber (Fin r) \<and> 15 \<le> r \<and> r \<le> 240
                  \<and> ((\<forall>x \<in> {sh, sm, eh, em}. x \<in> \<int> \<and> \<bar>x\<bar> \<le> 10 ^ 13) \<longrightarrow> r \<in> \<int>)"
      using dur r by auto
  next
    fix j assume "j < length sessions" "insertedAssignments \<noteq> []"
    then show "duration_minutes (rows ! (length meetings + j)) = durationMinutes (sessions ! j)"
      by (simp add: assms(4) allStudyBlocks_append nth_append assignmentRowOf_def)
  qed
qed

theorem C2_witness:
  "map duration_minutes
     (allStudyBlocks userId1 classId1
        (classMeetingBlocks isoOnlyHost (Some (mondayClass [''Monday''] ''08:00'' ''14:00'')))
        [plannedSession ''2025-02-10'' 500 0] [assignment1])
   = [JsNumber (Fin 240), JsNumber (Fin 500)]
   \<and> (240 :: rat) \<in> \<int>"
proof -
  have times: "startTime (mondayClass [''Monday''] ''08:00'' ''14:00'') = Some ''08:00''"
    "endTime (mondayClass [''Monday''] ''08:00'' ''14:00'') = Some ''14:00''"
    by (simp_all add: mondayClass_def)
  show ?thesis
    using C2_durations [OF times refl refl, where h = isoOnlyHost and u = userId1
        and c = classId1 and sessions = "[plannedSession ''2025-02-10'' 500 0]"
        and insertedAssignments = "[assignment1]" and sh = 8 and sm = 0 and eh = 14 and em = 0]
    by (simp add: mondayClass_blocks [OF classDuration_examples(2) isoOnlyHost_zone]
        hourMinute_examples allStudyBlocks_def classMeetingRow_def assignmentRowOf_def
        plannedSession_def)
qed

subsection \<open>C4: the duration of a class meeting\<close>




subsection \<open>C6: the scenario of two weeks of Mondays and Wednesdays\<close>

text \<open>
  C6: for the days Monday and Wednesday, from 10:00 to 11:00, between 2025-01-13 and
  2025-01-24, the class meeting blocks are exactly four, dated 2025-01-13, 2025-01-15,
  2025-01-20 and 2025-01-22, each of 60 minutes. This holds on every host whose local time
  is UTC, as that of a Supabase Edge Function is, or is ahead of UTC by less than a day;
  the clock's year does not matter. (West of UTC the dates are those of
  \<open>scenario_blocks_west\<close>.)
\<close>

theorem C6_scenario:
  assumes "0 \<le> localTZA h" and "localTZA h < msPerDay"
  shows "classMeetingBlocks h
     (Some \<lparr>days = Some [''Monday'', ''Wednesday''], startTime = Some ''10:00'',
            endTime = Some ''11:00'', startDate = Some ''2025-01-13'',
            endDate = Some ''2025-01-24''\<rparr>)
   = [\<lparr>blockDate = JsString ''2025-01-13'', blockStartTime = JsString ''10:00'',
       durationMinutes = JsNumber (Fin 60), isClassMeeting = JsBoolean True,
       assignmentIndex = JsUndefined\<rparr>,
      \<lparr>blockDate = JsString ''2025-01-15'', blockStartTime = JsString ''10:00'',
       durationMinutes = JsNumber (Fin 60), isClassMeeting = JsBoolean True,
       assignmentIndex = JsUndefined\<rparr>,
      \<lparr>blockDate = JsString ''2025-01-20'', blockStartTime = JsString ''10:00'',
       durationMinutes = JsNumber (Fin 60), isClassMeeting = JsBoolean True,
       assignmentIndex = JsUndefined\<rparr>,
      \<lparr>blockDate = JsString ''2025-01-22'', blockStartTime = JsString ''10:00'',
       durationMinutes = JsNumber (Fin 60), isClassMeeting = JsBoolean True,
       assignmentIndex = JsUndefined\<rparr>]"
  using scenario_blocks [OF assms] by (simp add: scenario_def)

theorem C6_witness:
  "0 \<le> localTZA (hostAt 2031 0) \<and> localTZA (hostAt 2031 0) < msPerDay
   \<and> map blockDate (classMeetingBlocks (hostAt 2031 0) (Some scenario))
       = map JsString [''2025-01-13'', ''2025-01-15'', ''2025-01-20'', ''2025-01-22'']
   \<and> map durationMinutes (classMeetingBlocks (hostAt 2031 0) (Some scenario))
       = map JsNumber [Fin 60, Fin 60, Fin 60, Fin 60]
   \<and> map blockDate (classMeetingBlocks (hostAt 2025 19800000) (Some scenario))
       = map JsString [''2025-01-13'', ''2025-01-15'', ''2025-01-20'', ''2025-01-22'']"
  using C6_scenario [of "hostAt 2031 0"] C6_scenario [of "hostAt 2025 19800000"]
  by (simp add: hostAt_def msPerDay_def scenario_def)

subsection \<open>C7: schedules that give no class meeting\<close>

text \<open>
  C7 as stated: no block is built when a time does not parse as two integers that are not
  negative. The handler only rejects \<open>NaN\<close>: the time \<^verbatim>\<open>-1:00\<close> has the hour -1, and the
  class below still gets its block (of 240 minutes, the cap).
\<close>

theorem C7_counterexample:
  "\<not> nonNegativeIntegers ''-1:00''
   \<and> classMeetingBlocks isoOnlyHost (Some (mondayClass [''Monday''] ''-1:00'' ''10:00'')) =
       [\<lparr>blockDate = JsString ''2025-01-13'', blockStartTime = JsString ''-1:00'',
         durationMinutes = JsNumber (Fin 240), isClassMeeting = JsBoolean True,
         assignmentIndex = JsUndefined\<rparr>]"
  by (simp add: mondayClass_blocks [OF classDuration_examples(3) isoOnlyHost_zone]
      nonNegativeIntegers_def hourMinute_examples)

text \<open>
  C7 amended: the class meeting blocks are empty when the schedule is absent, when its days
  are absent, when its start or end time is absent or empty, when the hour or the minute of
  a time is \<open>NaN\<close> (the field is not a numeric literal, or the time has no second field), or
  when no day name resolves to a day of the week. Computing them never fails: the function
  is total.
\<close>

theorem C7_unusable_schedule:
  assumes "sched = None
     \<or> (\<exists>s. sched = Some s
          \<and> (days s = None \<or> \<not> present (startTime s) \<or> \<not> present (endTime s)
             \<or> (\<exists>st et. startTime s = Some st \<and> endTime s = Some et
                   \<and> (isNaN (fst (hourMinute st)) \<or> isNaN (snd (hourMinute st))
                      \<or> isNaN (fst (hourMinute et)) \<or> isNaN (snd (hourMinute et))))
             \<or> (\<exists>ds. days s = Some ds
                   \<and> (\<forall>d \<in> set ds. \<forall>n. resolveDay d \<noteq> Some (DayNumber n)))))"
  shows "classMeetingBlocks h sched = []"
  using assms
proof (elim disjE exE conjE)
  assume "sched = None"
  then show ?thesis by (simp add: classMeetingBlocks_unusable)
next
  fix s assume "sched = Some s" "days s = None"
  then show ?thesis by (simp add: classMeetingBlocks_unusable)
next
  fix s assume "sched = Some s" "\<not> present (startTime s)"
  then show ?thesis by (simp add: classMeetingBlocks_unusable)
next
  fix s assume "sched = Some s" "\<not> present (endTime s)"
  then show ?thesis by (simp add: classMeetingBlocks_unusable)
next
  fix s st et assume "sched = Some s" "startTime s = Some st" "endTime s = Some et"
    "isNaN (fst (hourMinute st))"
  then show ?thesis by (simp add: classMeetingBlocks_unusable classDuration_None_iff)
next
  fix s st et assume "sched = Some s" "startTime s = Some st" "endTime s = Some et"
    "isNaN (snd (hourMinute st))"
  then show ?thesis by (simp add: classMeetingBlocks_unusable classDuration_None_iff)
next
  fix s st et assume "sched = Some s" "startTime s = Some st" "endTime s = Some et"
    "isNaN (fst (hourMinute et))"
  then show ?thesis by (simp add: classMeetingBlocks_unusable classDuration_None_iff)
next
  fix s st et assume "sched = Some s" "startTime s = Some st" "endTime s = Some et"
    "isNaN (snd (hourMinute et))"
  then show ?thesis by (simp add: classMeetingBlocks_unusable classDuration_None_iff)
next
  fix s ds assume "sched = Some s" "days s = Some ds"
    "\<forall>d \<in> set ds. \<forall>n. resolveDay d \<noteq> Some (DayNumber n)"
  then show ?thesis by (simp add: classMeetingBlocks_no_weekday)
qed

theorem C7_witness:
  "classMeetingBlocks isoOnlyHost None = []
   \<and> classMeetingBlocks isoOnlyHost (Some (mondayClass [''Funday''] ''10:00'' ''11:00'')) = []
   \<and> classMeetingBlocks isoOnlyHost (Some (mondayClass [''Monday''] ''10am'' ''11:00'')) = []
   \<and> classMeetingBlocks isoOnlyHost
        (Some \<lparr>days = Some [''Monday''], startTime = Some ''10:00'', endTime = None,
               startDate = None, endDate = None\<rparr>) = []"
  using C7_unusable_schedule [of None isoOnlyHost]
    C7_unusable_schedule [of "Some (mondayClass [''Funday''] ''10:00'' ''11:00'')" isoOnlyHost]
    C7_unusable_schedule [of "Some (mondayClass [''Monday''] ''10am'' ''11:00'')" isoOnlyHost]
    C7_unusable_schedule [of "Some \<lparr>days = Some [''Monday''], startTime = Some ''10:00'',
        endTime = None, startDate = None, endDate = None\<rparr>" isoOnlyHost]
  by (simp add: mondayClass_def present_def hourMinute_examples isNaN_def resolveDay_def
      dayMapGet_def dayMap_def trim_def isWhiteSpace_def substring03_def objectPrototypeKeys_def)

subsection \<open>C5: one class meeting for each matching date\<close>

text \<open>
  C5 as stated: the class meeting blocks are one for each date of the range whose day of
  the week is one of the schedule's, and two calls with the same schedule give the same
  list. A schedule without dates is valid: its range is January 15 to May 15 of the year
  of the clock. The class below, on Wednesdays and Thursdays, gets a first meeting on
  2025-01-15 when the clock is in 2025 and on 2026-01-15 when it is in 2026: the same
  schedule, two lists.
\<close>

theorem C5_counterexample:
  "classMeetingBlocks (hostAt 2025 0) (Some (midweekClass None None))
     \<noteq> classMeetingBlocks (hostAt 2026 0) (Some (midweekClass None None))
   \<and> blockDate (hd (classMeetingBlocks (hostAt 2025 0) (Some (midweekClass None None))))
       = JsString ''2025-01-15''
   \<and> blockDate (hd (classMeetingBlocks (hostAt 2026 0) (Some (midweekClass None None))))
       = JsString ''2026-01-15''"
proof -
  let ?sd = "[Some (DayNumber 3), Some (DayNumber 4)]"
  have a: "classMeetingBlocks (hostAt 2025 0) (Some (midweekClass None None))
             = map (\<lambda>d. meetingBlock ''10:00'' (Fin 60) (MakeDate d 0))
                 (matchingDays (scheduleDays [''Wednesday'', ''Thursday'']) 20103 20223)"
    by (rule classMeetingBlocks_utc [where et = "''11:00''"])
      (simp_all add: midweekClass_def hostAt_def boundaryDay_def default_day_examples
        classDuration_examples)
  have b: "classMeetingBlocks (hostAt 2026 0) (Some (midweekClass None None))
             = map (\<lambda>d. meetingBlock ''10:00'' (Fin 60) (MakeDate d 0))
                 (matchingDays (scheduleDays [''Wednesday'', ''Thursday'']) 20468 20588)"
    by (rule classMeetingBlocks_utc [where et = "''11:00''"])
      (simp_all add: midweekClass_def hostAt_def boundaryDay_def default_day_examples
        classDuration_examples)
  have m: "matchingDays ?sd 20103 20223 = 20103 # matchingDays ?sd (20103 + 1) 20223"
    "matchingDays ?sd 20468 20588 = 20468 # matchingDays ?sd (20468 + 1) 20588"
    by (rule matchingDays_first; simp add: WeekDay_examples arrayIncludes_def)+
  have first: "blockDate (hd (classMeetingBlocks (hostAt 2025 0) (Some (midweekClass None None))))
       = JsString ''2025-01-15''"
    "blockDate (hd (classMeetingBlocks (hostAt 2026 0) (Some (midweekClass None None))))
       = JsString ''2026-01-15''"
    unfolding a b scheduleDays_examples m
    by (simp_all add: meetingBlock_def isoDatePart_examples)
  have "classMeetingBlocks (hostAt 2025 0) (Some (midweekClass None None))
     \<noteq> classMeetingBlocks (hostAt 2026 0) (Some (midweekClass None None))"
  proof
    assume "classMeetingBlocks (hostAt 2025 0) (Some (midweekClass None None))
      = classMeetingBlocks (hostAt 2026 0) (Some (midweekClass None None))"
    then have "JsString ''2025-01-15'' = JsString ''2026-01-15''"
      using first by simp
    then show False by simp
  qed
  then show ?thesis using first by simp
qed

text \<open>
  C5 amended, for a host whose local time is UTC and a schedule whose days and times give a
  duration, each of its dates being absent, empty or in the form \<^verbatim>\<open>YYYY-MM-DD\<close>: the range
  goes from the start date, or January 15 of the clock's year, to the end date, or May 15
  of the clock's year (the clock being between 1970 and 9999 when a date is missing). The
  class meeting blocks are one block for each day of the range whose day of the week is one
  of the schedule's, in strictly ascending order of the day: as many blocks as there are
  such days. The date of each block is the ISO form of its day (it parses to that day). A
  second host in UTC gives the same list when its clock is in the same year, and whatever
  its year when the schedule has both dates.
\<close>

theorem C5_recurrence:
  assumes "days s = Some ds" and "startTime s = Some st" and "endTime s = Some et"
    and "classDuration st et = Some dur"
    and "localTZA h = 0"
    and "present (startDate s) \<and> present (endDate s)
         \<or> 1970 \<le> currentYear h \<and> currentYear h \<le> 9999"
    and "boundaryDay h (startDate s) 0 = Some d1" and "boundaryDay h (endDate s) 4 = Some d2"
  shows "classMeetingBlocks h (Some s)
           = map (\<lambda>d. meetingBlock st dur (MakeDate d 0)) (matchingDays (scheduleDays ds) d1 d2)
    \<and> list_all2 (\<lambda>b d. \<exists>x. blockDate b = JsString x \<and> parseISODay x = Some d)
          (classMeetingBlocks h (Some s)) (matchingDays (scheduleDays ds) d1 d2)
    \<and> sorted_wrt (<) (matchingDays (scheduleDays ds) d1 d2)
    \<and> set (matchingDays (scheduleDays ds) d1 d2)
        = {d. d1 \<le> d \<and> d \<le> d2 \<and> arrayIncludes (scheduleDays ds) (WeekDay (MakeDate d 0))}
    \<and> length (classMeetingBlocks h (Some s))
        = card {d. d1 \<le> d \<and> d \<le> d2 \<and> arrayIncludes (scheduleDays ds) (WeekDay (MakeDate d 0))}
    \<and> (localTZA h' = 0
         \<and> (currentYear h' = currentYear h \<or> present (startDate s) \<and> present (endDate s))
        \<longrightarrow> classMeetingBlocks h' (Some s) = classMeetingBlocks h (Some s))"
proof -
  let ?m = "matchingDays (scheduleDays ds) d1 d2"
  have blocks: "classMeetingBlocks h (Some s) = map (\<lambda>d. meetingBlock st dur (MakeDate d 0)) ?m"
    using assms by (rule classMeetingBlocks_utc)
  have sorted: "sorted_wrt (<) ?m"
    unfolding matchingDays_def by (intro sorted_wrt_filter) (simp add: strict_sorted_iff)
  have elems: "set ?m
        = {d. d1 \<le> d \<and> d \<le> d2 \<and> arrayIncludes (scheduleDays ds) (WeekDay (MakeDate d 0))}"
    by (auto simp: matchingDays_def)
  have y1: "present (startDate s) \<or> 1970 \<le> currentYear h \<and> currentYear h \<le> 9999"
    and y2: "present (endDate s) \<or> 1970 \<le> currentYear h \<and> currentYear h \<le> 9999"
    using assms(6) by auto
  have range: "DayFromYear 0 \<le> d1" "d2 < DayFromYear 10000"
    using boundaryDay_range [OF assms(7) y1] boundaryDay_range [OF assms(8) y2] by simp_all
  have "\<exists>x. blockDate (meetingBlock st dur (MakeDate d 0)) = JsString x \<and> parseISODay x = Some d"
    if "d \<in> set ?m" for d
  proof -
    have "DayFromYear 0 \<le> d" "d < DayFromYear 10000"
      using that range by (simp_all add: elems)
    then show ?thesis
      using isoDatePart_in_range [of d] by (simp add: meetingBlock_def)
  qed
  then have dates: "list_all2 (\<lambda>b d. \<exists>x. blockDate b = JsString x \<and> parseISODay x = Some d)
          (classMeetingBlocks h (Some s)) ?m"
    by (simp add: blocks list_all2_map1 list_all2_same)
  have "distinct ?m" by (simp add: matchingDays_def)
  then have "card (set ?m) = length ?m" by (rule distinct_card)
  then have count: "length (classMeetingBlocks h (Some s))
        = card {d. d1 \<le> d \<and> d \<le> d2 \<and> arrayIncludes (scheduleDays ds) (WeekDay (MakeDate d 0))}"
    by (simp add: blocks elems)
  have same: "classMeetingBlocks h' (Some s) = classMeetingBlocks h (Some s)"
    if h': "localTZA h' = 0
         \<and> (currentYear h' = currentYear h \<or> present (startDate s) \<and> present (endDate s))"
  proof -
    have b: "boundaryDay h' f m = boundaryDay h f m"
      if "currentYear h' = currentYear h \<or> present f" for f m
      using that by (auto simp: boundaryDay_def present_def split: option.splits)
    have "boundaryDay h' (startDate s) 0 = Some d1" "boundaryDay h' (endDate s) 4 = Some d2"
      using h' assms(7,8) b [of "startDate s" 0] b [of "endDate s" 4] by auto
    moreover have "present (startDate s) \<and> present (endDate s)
         \<or> 1970 \<le> currentYear h' \<and> currentYear h' \<le> 9999"
      using h' assms(6) by auto
    ultimately have "classMeetingBlocks h' (Some s)
        = map (\<lambda>d. meetingBlock st dur (MakeDate d 0)) ?m"
      using assms(1-4) h' by (intro classMeetingBlocks_utc) simp_all
    then show ?thesis by (simp add: blocks)
  qed
  show ?thesis
    using blocks sorted elems dates count same by blast
qed

theorem C5_witness:
  "classMeetingBlocks isoOnlyHost (Some (midweekClass None (Some ''2025-01-24'')))
     = map (\<lambda>d. meetingBlock ''10:00'' (Fin 60) (MakeDate d 0)) [20103, 20104, 20110, 20111]
   \<and> map blockDate (classMeetingBlocks isoOnlyHost (Some (midweekClass None (Some ''2025-01-24''))))
     = map JsString [''2025-01-15'', ''2025-01-16'', ''2025-01-22'', ''2025-01-23'']
   \<and> card {d. 20103 \<le> d \<and> d \<le> 20112
          \<and> arrayIncludes [Some (DayNumber 3), Some (DayNumber 4)] (WeekDay (MakeDate d 0))} = 4
   \<and> classMeetingBlocks \<lparr>currentYear = 2025, localTZA = 0, parseOther = (\<lambda>s. Some 0)\<rparr>
        (Some (midweekClass None (Some ''2025-01-24'')))
     = classMeetingBlocks isoOnlyHost (Some (midweekClass None (Some ''2025-01-24'')))"
proof -
  let ?s = "midweekClass None (Some ''2025-01-24'')"
  let ?h' = "\<lparr>currentYear = 2025, localTZA = 0, parseOther = (\<lambda>s. Some 0)\<rparr>"
  let ?sd = "scheduleDays [''Wednesday'', ''Thursday'']"
  have hyp: "localTZA ?h' = 0
         \<and> (currentYear ?h' = currentYear isoOnlyHost
             \<or> present (startDate ?s) \<and> present (endDate ?s))"
    by (simp add: isoOnlyHost_def)
  have "classMeetingBlocks isoOnlyHost (Some ?s)
           = map (\<lambda>d. meetingBlock ''10:00'' (Fin 60) (MakeDate d 0)) (matchingDays ?sd 20103 20112)
    \<and> list_all2 (\<lambda>b d. \<exists>x. blockDate b = JsString x \<and> parseISODay x = Some d)
          (classMeetingBlocks isoOnlyHost (Some ?s)) (matchingDays ?sd 20103 20112)
    \<and> sorted_wrt (<) (matchingDays ?sd 20103 20112)
    \<and> set (matchingDays ?sd 20103 20112)
        = {d. 20103 \<le> d \<and> d \<le> 20112 \<and> arrayIncludes ?sd (WeekDay (MakeDate d 0))}
    \<and> length (classMeetingBlocks isoOnlyHost (Some ?s))
        = card {d. 20103 \<le> d \<and> d \<le> 20112 \<and> arrayIncludes ?sd (WeekDay (MakeDate d 0))}
    \<and> (localTZA ?h' = 0
         \<and> (currentYear ?h' = currentYear isoOnlyHost
             \<or> present (startDate ?s) \<and> present (endDate ?s))
        \<longrightarrow> classMeetingBlocks ?h' (Some ?s) = classMeetingBlocks isoOnlyHost (Some ?s))"
    by (rule C5_recurrence [where et = "''11:00''"])
      (simp_all add: midweekClass_def isoOnlyHost_def boundaryDay_def default_day_examples
        parseISODay_examples classDuration_examples)
  then have b: "classMeetingBlocks isoOnlyHost (Some ?s)
           = map (\<lambda>d. meetingBlock ''10:00'' (Fin 60) (MakeDate d 0)) (matchingDays ?sd 20103 20112)"
    and n: "length (classMeetingBlocks isoOnlyHost (Some ?s))
        = card {d. 20103 \<le> d \<and> d \<le> 20112 \<and> arrayIncludes ?sd (WeekDay (MakeDate d 0))}"
    and e: "classMeetingBlocks ?h' (Some ?s) = classMeetingBlocks isoOnlyHost (Some ?s)"
    using hyp by blast+
  have "card {d. 20103 \<le> d \<and> d \<le> 20112 \<and> arrayIncludes ?sd (WeekDay (MakeDate d 0))} = 4"
    using n unfolding b scheduleDays_examples matching_examples by simp
  then show ?thesis
    using e unfolding b scheduleDays_examples matching_examples
    by (simp add: meetingBlock_def isoDatePart_examples)
qed

subsection \<open>C8: the day names that are accepted\<close>




subsection \<open>C10: how a day token is matched\<close>

text \<open>
  C10, on the list \<open>scheduleDays\<close> that the handler builds from the tokens: white space
  around a token is ignored; a token whose trimmed form is a key of \<open>dayMap\<close>, or whose
  first three characters are a key when the trimmed form is none, puts the day of that key
  into the list, at the token's place. So every token that starts with Mon, Tue, Wed, Thu,
  Fri, Sat or Sun gives that day, whatever follows. The match is sensitive to case:
  \<^verbatim>\<open>monday\<close> is dropped from the list.
\<close>

theorem C10_day_tokens:
  "((\<forall>c \<in> set pre. isWhiteSpace c) \<and> (\<forall>c \<in> set post. isWhiteSpace c)
      \<longrightarrow> scheduleDays (xs @ [pre @ tok @ post] @ ys) = scheduleDays (xs @ [tok] @ ys))
   \<and> (map_of dayMap (trim tok) = Some n
       \<or> map_of dayMap (trim tok) = None \<and> map_of dayMap (substring03 (trim tok)) = Some n
        \<longrightarrow> resolveDay tok = Some (DayNumber n)
            \<and> scheduleDays (xs @ [tok] @ ys)
                = scheduleDays xs @ [Some (DayNumber n)] @ scheduleDays ys)
   \<and> scheduleDays (map (\<lambda>p. p @ rest) [''Mon'', ''Tue'', ''Wed'', ''Thu'', ''Fri'', ''Sat'', ''Sun''])
       = map (\<lambda>n. Some (DayNumber n)) [1, 2, 3, 4, 5, 6, 0]
   \<and> resolveDay ''monday'' = None
   \<and> scheduleDays (xs @ [''monday''] @ ys) = scheduleDays xs @ scheduleDays ys"
proof -
  have "scheduleDays (xs @ [pre @ tok @ post] @ ys) = scheduleDays (xs @ [tok] @ ys)"
    if "(\<forall>c \<in> set pre. isWhiteSpace c) \<and> (\<forall>c \<in> set post. isWhiteSpace c)"
  proof -
    have "resolveDay (pre @ tok @ post) = resolveDay tok"
      using trim_white [of pre post tok] that by (simp add: resolveDay_def)
    then show ?thesis by (simp add: scheduleDays_token)
  qed
  moreover have "resolveDay tok = Some (DayNumber n)
            \<and> scheduleDays (xs @ [tok] @ ys)
                = scheduleDays xs @ [Some (DayNumber n)] @ scheduleDays ys"
    if "map_of dayMap (trim tok) = Some n
       \<or> map_of dayMap (trim tok) = None \<and> map_of dayMap (substring03 (trim tok)) = Some n"
  proof -
    have "resolveDay tok = Some (DayNumber n)"
      using that resolveDay_key [of tok n] resolveDay_prefix [of tok n]
      by (auto simp: substring03_def)
    then show ?thesis by (simp add: scheduleDays_token)
  qed
  moreover have "scheduleDays (map (\<lambda>p. p @ rest)
          [''Mon'', ''Tue'', ''Wed'', ''Thu'', ''Fri'', ''Sat'', ''Sun''])
       = map (\<lambda>n. Some (DayNumber n)) [1, 2, 3, 4, 5, 6, 0]"
    using resolveDay_abbreviated [of rest] by (simp add: scheduleDays_def)
  moreover have m: "resolveDay ''monday'' = None"
    by (simp add: resolveDay_def dayMapGet_def dayMap_def trim_def isWhiteSpace_def
        substring03_def objectPrototypeKeys_def)
  moreover have "scheduleDays (xs @ [''monday''] @ ys) = scheduleDays xs @ scheduleDays ys"
    by (simp add: scheduleDays_token m)
  ultimately show ?thesis by blast
qed

theorem C10_witness:
  "scheduleDays [''Fri'', '' Mondays  '', ''monday'', ''Thurs.'']
     = [Some (DayNumber 5), Some (DayNumber 1), Some (DayNumber 4)]
   \<and> resolveDay ''Mondays'' = Some (DayNumber 1)
   \<and> scheduleDays [''Monday'', ''Tuesdays'', ''Wed.'', ''Thursday'', ''Friday'', ''Sat'', ''Sunday'']
       = map (\<lambda>n. Some (DayNumber n)) [1, 2, 3, 4, 5, 6, 0]"
proof -
  have w: "\<forall>c \<in> set '' ''. isWhiteSpace c" "\<forall>c \<in> set ''  ''. isWhiteSpace c"
    by (simp_all add: isWhiteSpace_def)
  have k: "map_of dayMap (trim ''Mondays'') = None"
    "map_of dayMap (substring03 (trim ''Mondays'')) = Some 1"
    "map_of dayMap (trim ''Thurs.'') = None"
    "map_of dayMap (substring03 (trim ''Thurs.'')) = Some 4"
    "map_of dayMap (trim ''Fri'') = Some 5"
    by (simp_all add: trim_def isWhiteSpace_def dayMap_def substring03_def)
  have a: "scheduleDays ([''Fri''] @ ['' '' @ ''Mondays'' @ ''  ''] @ [''monday'', ''Thurs.''])
             = scheduleDays ([''Fri''] @ [''Mondays''] @ [''monday'', ''Thurs.''])"
    using C10_day_tokens [of "'' ''" "''  ''" "[''Fri'']" "''Mondays''" "[''monday'', ''Thurs.'']"]
      w by blast
  have b: "resolveDay ''Mondays'' = Some (DayNumber 1)"
    "scheduleDays ([''Fri''] @ [''Mondays''] @ [''monday'', ''Thurs.''])
       = scheduleDays [''Fri''] @ [Some (DayNumber 1)] @ scheduleDays [''monday'', ''Thurs.'']"
    using C10_day_tokens [of _ _ "[''Fri'']" "''Mondays''" "[''monday'', ''Thurs.'']" 1] k(1,2)
    by blast+
  have c: "scheduleDays ([] @ [''Fri''] @ []) = scheduleDays [] @ [Some (DayNumber 5)] @ scheduleDays []"
    using C10_day_tokens [of _ _ "[]" "''Fri''" "[]" 5] k(5) by blast
  have d: "scheduleDays ([] @ [''monday''] @ [''Thurs.'']) = scheduleDays [] @ scheduleDays [''Thurs.'']"
    using C10_day_tokens [of _ _ "[]" _ "[''Thurs.'']"] by blast
  have e: "scheduleDays ([] @ [''Thurs.''] @ []) = scheduleDays [] @ [Some (DayNumber 4)] @ scheduleDays []"
    using C10_day_tokens [of _ _ "[]" "''Thurs.''" "[]" 4] k(3,4) by blast
  have f: "scheduleDays (map (\<lambda>p. p @ ''day'') [''Mon'', ''Tue'', ''Wed'', ''Thu'', ''Fri'', ''Sat'', ''Sun''])
       = map (\<lambda>n. Some (DayNumber n)) [1, 2, 3, 4, 5, 6, 0]"
    using C10_day_tokens [of _ _ _ _ _ _ "''day''"] by blast
  have nil: "scheduleDays [] = []" by (simp add: scheduleDays_def)
  have "scheduleDays [''Fri'', '' Mondays  '', ''monday'', ''Thurs.'']
     = [Some (DayNumber 5), Some (DayNumber 1), Some (DayNumber 4)]"
    using a b(2) c d e by (simp add: nil)
  moreover have "scheduleDays [''Monday'', ''Tuesdays'', ''Wed.'', ''Thursday'', ''Friday'', ''Sat'', ''Sunday'']
       = map (\<lambda>n. Some (DayNumber n)) [1, 2, 3, 4, 5, 6, 0]"
    by (simp add: scheduleDays_def resolveDay_def dayMapGet_def dayMap_def trim_def
        isWhiteSpace_def substring03_def objectPrototypeKeys_def)
  ultimately show ?thesis using b(1) by simp
qed

end
